theory Spec2Isabelle
  imports Complex_Main "HOL-Library.AList" "HOL-Library.Sublist"
begin

section \<open>Data model\<close>

text \<open>
  The analysis pipeline of the ATC transcript analyzer is Python (the design document's
  \<^verbatim>\<open>FatigueAgent\<close>, \<^verbatim>\<open>SafetyAgent\<close>, \<^verbatim>\<open>SummarizerAgent\<close>, \<^verbatim>\<open>analyze_shift\<close> and
  \<^verbatim>\<open>process_shift\<close>); the upload form is TypeScript (\<^verbatim>\<open>ShiftSelection.tsx\<close>).

  A transcript is a \<^verbatim>\<open>List[Dict]\<close> whose entries carry \<^verbatim>\<open>timestamp\<close>, \<^verbatim>\<open>speaker\<close> and
  \<^verbatim>\<open>text\<close> (the database column \<^verbatim>\<open>timestamp REAL\<close>). Timestamps are modelled as exact
  rationals: the binary rounding of Python floats is not part of the model. Speakers are
  the strings the code compares against (\<^verbatim>\<open>'pilot'\<close>, \<^verbatim>\<open>'controller'\<close>).
\<close>

record transcript_entry =
  timestamp :: rat
  speaker :: string
  "text" :: string

type_synonym transcript = "transcript_entry list"

section \<open>Transcript metrics: response times\<close>

text \<open>
  \<^verbatim>\<open>
  def _calculate_response_times(self, transcript):
      times = []
      for i in range(len(transcript) - 1):
          if transcript[i]['speaker'] == 'pilot':
              if transcript[i+1]['speaker'] == 'controller':
                  delta = transcript[i+1]['timestamp'] - transcript[i]['timestamp']
                  times.append(delta)
      return {
          'avg': sum(times) / len(times) if times else 0,
          'max': max(times) if times else 0,
          'min': min(times) if times else 0
      }
  \<close>
  The loop runs over \<open>range(len(transcript) - 1)\<close>, which is empty for the empty
  transcript (truncating subtraction on \<open>nat\<close> gives the same range), so both index
  reads are in range.
\<close>

definition response_step :: "transcript \<Rightarrow> rat list \<Rightarrow> nat \<Rightarrow> rat list" where
  "response_step transcript times' i =
     (if speaker (transcript ! i) = ''pilot'' then
        (if speaker (transcript ! (i + 1)) = ''controller'' then
           times' @ [timestamp (transcript ! (i + 1)) - timestamp (transcript ! i)]
         else times')
      else times')"

definition response_loop :: "transcript \<Rightarrow> rat list" where
  "response_loop transcript =
     foldl (response_step transcript) [] [0..<length transcript - 1]"

text \<open>Python's \<^verbatim>\<open>sum\<close>, \<^verbatim>\<open>max\<close> and \<^verbatim>\<open>min\<close> iterate from the left; \<^verbatim>\<open>max\<close> and
  \<^verbatim>\<open>min\<close> are only called on a non-empty list here.\<close>

definition py_sum :: "rat list \<Rightarrow> rat" where
  "py_sum xs = foldl (+) 0 xs"

fun py_max :: "rat list \<Rightarrow> rat" where
  "py_max [] = 0"
| "py_max (x # xs) = foldl max x xs"

fun py_min :: "rat list \<Rightarrow> rat" where
  "py_min [] = 0"
| "py_min (x # xs) = foldl min x xs"

record response_times =
  avg :: rat
  max_time :: rat
  min_time :: rat

definition calculate_response_times :: "transcript \<Rightarrow> response_times" where
  "calculate_response_times transcript =
     (let times' = response_loop transcript in
      \<lparr> avg = (if times' \<noteq> [] then py_sum times' / of_nat (length times') else 0),
        max_time = (if times' \<noteq> [] then py_max times' else 0),
        min_time = (if times' \<noteq> [] then py_min times' else 0) \<rparr>)"



definition example_transcript :: transcript where
  "example_transcript =
     [\<lparr>timestamp = 0, speaker = ''pilot'', text = ''Tower, United four two niner ready''\<rparr>,
      \<lparr>timestamp = 2, speaker = ''controller'', text = ''United four two niner, cleared for takeoff''\<rparr>,
      \<lparr>timestamp = 10, speaker = ''pilot'', text = ''Tower, Delta eight nine two, ten miles south''\<rparr>,
      \<lparr>timestamp = 76 / 5, speaker = ''controller'', text = ''Delta eight... uh... nine two, tower, um''\<rparr>]"

section \<open>Transcript metrics: hesitations\<close>

text \<open>
  \<^verbatim>\<open>
  def _count_hesitations(self, transcript):
      fillers = ['uh', 'um', 'er', 'ah', '...']
      count = 0
      for item in transcript:
          if item['speaker'] == 'controller':
              text = item['text'].lower()
              count += sum(text.count(filler) for filler in fillers)
      return count
  \<close>
  \<^verbatim>\<open>str.count(sub)\<close> is the number of non-overlapping occurrences of \<open>sub\<close>, found by
  scanning from the left; for the empty \<open>sub\<close> it is \<open>len(s) + 1\<close>.
\<close>

function str_count :: "string \<Rightarrow> string \<Rightarrow> nat" where
  "str_count s sub =
     (if sub = [] then length s + 1
      else if length s < length sub then 0
      else if take (length sub) s = sub then 1 + str_count (drop (length sub) s) sub
      else str_count (tl s) sub)"
  by pat_completeness auto
termination
  by (relation "measure (\<lambda>(s, sub). length s)") (auto simp: neq_Nil_conv)

declare str_count.simps [simp del]

text \<open>\<^verbatim>\<open>str.lower()\<close> on the ASCII letters; every other character is left as it is.\<close>

definition lower_char :: "char \<Rightarrow> char" where
  "lower_char c =
     (if 65 \<le> (of_char c :: nat) \<and> (of_char c :: nat) \<le> 90
      then char_of (of_char c + 32 :: nat) else c)"

definition str_lower :: "string \<Rightarrow> string" where
  "str_lower s = map lower_char s"

definition fillers :: "string list" where
  "fillers = [''uh'', ''um'', ''er'', ''ah'', ''...'']"

definition hesitation_step :: "nat \<Rightarrow> transcript_entry \<Rightarrow> nat" where
  "hesitation_step count' item =
     (if speaker item = ''controller'' then
        (let text' = str_lower (text item)
         in count' + sum_list (map (\<lambda>filler. str_count text' filler) fillers))
      else count')"

definition count_hesitations :: "transcript \<Rightarrow> nat" where
  "count_hesitations transcript = foldl hesitation_step 0 transcript"

text \<open>Notions used in the proofs: the filler occurrences of one (lower-cased) utterance,
  and a pattern lying across the boundary between two adjacent pieces of text.\<close>

definition utterance_fillers :: "string \<Rightarrow> nat" where
  "utterance_fillers t = sum_list (map (str_count t) fillers)"

definition straddles :: "string \<Rightarrow> string \<Rightarrow> string \<Rightarrow> bool" where
  "straddles sub a b \<longleftrightarrow>
     (\<exists>k. 0 < k \<and> k < length sub \<and> suffix (take k sub) a \<and> prefix (drop k sub) b)"

definition hesitation_example :: transcript where
  "hesitation_example =
     [\<lparr>timestamp = 1, speaker = ''controller'', text = ''Uh, uh... um''\<rparr>,
      \<lparr>timestamp = 2, speaker = ''pilot'', text = ''uh, say again''\<rparr>]"

text \<open>The contribution of one transcript entry to the count.\<close>

definition entry_hesitations :: "transcript_entry \<Rightarrow> nat" where
  "entry_hesitations e =
     (if speaker e = ''controller'' then utterance_fillers (str_lower (text e)) else 0)"

definition hesitation_example_more :: transcript where
  "hesitation_example_more =
     hesitation_example[0 := (hesitation_example ! 0)\<lparr>text := ''Uh, '' @ ''ER'' @ ''uh... um''\<rparr>]"

definition hesitation_example_pilot :: transcript where
  "hesitation_example_pilot =
     [\<lparr>timestamp = 1, speaker = ''controller'', text = ''Uh, uh... um''\<rparr>,
      \<lparr>timestamp = 5, speaker = ''pilot'', text = ''er... um... ah''\<rparr>]"

section \<open>Values, dictionaries and exceptions\<close>

text \<open>
  Metadata, agent results and reports are Python dictionaries of JSON-like values.
  A dictionary is an association list in insertion order; \<^verbatim>\<open>d[k]\<close> raises
  \<^verbatim>\<open>KeyError\<close> for a missing key and \<^verbatim>\<open>d[k] = v\<close> replaces the value in place or
  appends the key.
\<close>

datatype json =
    JNull
  | JBool bool
  | JNum rat
  | JStr string
  | JList "json list"
  | JDict "(string \<times> json) list"

type_synonym py_dict = "(string \<times> json) list"

text \<open>Every \<^verbatim>\<open>raise\<close> is a value. The exceptions of the external collaborators (storage,
  transcription, the language-model client, the JSON extractor) are whatever these
  return on the left.\<close>

datatype exception =
    KeyError string
  | NameError string
  | ValueError string
  | TypeError string
  | ZeroDivisionError
  | APITimeoutError
  | APIError string
  | ExtractionError string
  | StorageError string

definition and_then :: "exception + 'a \<Rightarrow> ('a \<Rightarrow> exception + 'b) \<Rightarrow> exception + 'b" where
  "and_then r f = (case r of Inl e \<Rightarrow> Inl e | Inr x \<Rightarrow> f x)"

definition dict_get :: "py_dict \<Rightarrow> string \<Rightarrow> exception + json" where
  "dict_get d k = (case map_of d k of None \<Rightarrow> Inl (KeyError k) | Some v \<Rightarrow> Inr v)"

definition dict_set :: "py_dict \<Rightarrow> string \<Rightarrow> json \<Rightarrow> py_dict" where
  "dict_set d k v = AList.update k v d"

fun py_len :: "json \<Rightarrow> exception + nat" where
  "py_len (JStr s) = Inr (length s)"
| "py_len (JList xs) = Inr (length xs)"
| "py_len (JDict d) = Inr (length d)"
| "py_len v = Inl (TypeError ''object has no len()'')"

section \<open>Sampling the transcript for the prompt\<close>

text \<open>
  \<^verbatim>\<open>
  def _format_samples(self, transcript, num_samples=10):
      # Take evenly spaced samples across shift
      interval = len(transcript) // num_samples
      samples = transcript[::interval][:num_samples]
      formatted = []
      for s in samples:
          formatted.append(f"[{s['timestamp']}] {s['speaker'].upper()}: {s['text']}")
      return "\n".join(formatted)
  \<close>
  A slice with step 0 raises \<^verbatim>\<open>ValueError: slice step cannot be zero\<close>; \<open>//\<close> by zero
  raises \<^verbatim>\<open>ZeroDivisionError\<close>. The sample count is a natural number (the only call
  passes 10). \<open>xs[::k]\<close> for \<open>k > 0\<close> has the elements at indices \<open>0, k, 2k, \<dots>\<close>
  below \<open>len(xs)\<close>. How a timestamp prints is left to a parameter.
\<close>

definition slice_step :: "'a list \<Rightarrow> nat \<Rightarrow> 'a list" where
  "slice_step xs k = map (\<lambda>j. xs ! (j * k)) [0..<(length xs + k - 1) div k]"

definition select_samples :: "transcript \<Rightarrow> nat \<Rightarrow> exception + transcript" where
  "select_samples transcript num_samples =
     (if num_samples = 0 then Inl ZeroDivisionError
      else let interval = length transcript div num_samples in
        if interval = 0 then Inl (ValueError ''slice step cannot be zero'')
        else Inr (take num_samples (slice_step transcript interval)))"

definition upper_char :: "char \<Rightarrow> char" where
  "upper_char c =
     (if 97 \<le> (of_char c :: nat) \<and> (of_char c :: nat) \<le> 122
      then char_of (of_char c - 32 :: nat) else c)"

definition str_upper :: "string \<Rightarrow> string" where
  "str_upper s = map upper_char s"

fun str_join :: "string \<Rightarrow> string list \<Rightarrow> string" where
  "str_join sep [] = []"
| "str_join sep [x] = x"
| "str_join sep (x # y # ys) = x @ sep @ str_join sep (y # ys)"

definition format_sample :: "(rat \<Rightarrow> string) \<Rightarrow> transcript_entry \<Rightarrow> string" where
  "format_sample str_of s =
     ''['' @ str_of (timestamp s) @ ''] '' @ str_upper (speaker s) @ '': '' @ text s"

definition format_samples :: "(rat \<Rightarrow> string) \<Rightarrow> transcript \<Rightarrow> nat \<Rightarrow> exception + string" where
  "format_samples str_of transcript num_samples =
     and_then (select_samples transcript num_samples)
       (\<lambda>samples. Inr (str_join [CHR 0x0A] (map (format_sample str_of) samples)))"

text \<open>The indices the specification describes: \<open>num_samples\<close> entries at stride
  \<open>len(transcript) // num_samples\<close>.\<close>

definition sample_indices :: "nat \<Rightarrow> nat \<Rightarrow> nat list" where
  "sample_indices len num_samples = map (\<lambda>j. j * (len div num_samples)) [0..<num_samples]"

definition short_transcript :: transcript where
  "short_transcript =
     [\<lparr>timestamp = 0, speaker = ''pilot'', text = ''Tower, ready for departure''\<rparr>,
      \<lparr>timestamp = 2, speaker = ''controller'', text = ''Cleared for takeoff''\<rparr>,
      \<lparr>timestamp = 10, speaker = ''pilot'', text = ''Ten miles south, inbound''\<rparr>]"

definition long_transcript :: transcript where
  "long_transcript =
     map (\<lambda>n. \<lparr>timestamp = of_nat n, speaker = (if even n then ''pilot'' else ''controller''),
               text = ''roger''\<rparr>) [0..<25]"

section \<open>The language-model backend and the external collaborators\<close>

text \<open>
  A prompt is its fixed template text with values interpolated; the model keeps the
  interpolated values, in template order, and leaves the fixed text out.
  \<^item> \<open>FatiguePrompt\<close>: hours on duty, \<^verbatim>\<open>metadata['start_time']\<close>,
    \<^verbatim>\<open>metadata['schedule_type']\<close>, \<^verbatim>\<open>metadata['position']\<close>, the average response time,
    the hesitation count, \<^verbatim>\<open>len(transcript)\<close>, the formatted samples.
  \<^item> \<open>SafetyPrompt\<close>: \<^verbatim>\<open>metadata['facility']\<close>, \<^verbatim>\<open>metadata['position']\<close>, the formatted
    full transcript.
  \<^item> \<open>SummarizerPrompt\<close>: \<^verbatim>\<open>metadata['controller_id']\<close>, \<^verbatim>\<open>metadata['start_time']\<close>, the
    hours, \<^verbatim>\<open>metadata['position']\<close>, \<^verbatim>\<open>metadata['schedule_type']\<close>, then
    \<^verbatim>\<open>fatigue_result['fatigue_score']\<close>, \<^verbatim>\<open>['severity']\<close>, \<^verbatim>\<open>['indicators']\<close>,
    \<^verbatim>\<open>safety_result['safety_score']\<close>, \<^verbatim>\<open>len(safety_result['issues_found'])\<close>,
    \<^verbatim>\<open>safety_result['requires_immediate_review']\<close>.
  A request is the model name, \<^verbatim>\<open>max_tokens\<close> and the prompt.
\<close>

datatype prompt =
    FatiguePrompt json json json json rat nat nat string
  | SafetyPrompt json json string
  | SummarizerPrompt json json json json json json json json json nat json

datatype request = Request string nat prompt

datatype agent = Fatigue | Safety | Summarizer

text \<open>The trace records, for each agent, that its \<^verbatim>\<open>analyze\<close> was entered (with the
  upstream results it was given) and that it returned a result.\<close>

datatype event = Invoked agent "py_dict list" | Returned agent py_dict

text \<open>
  The functions the document calls but does not define are parameters:
  \<^verbatim>\<open>client.messages.create\<close> (the reply to the \<open>n\<close>-th call of a run of the system: a text
  or an exception such as a timeout), \<^verbatim>\<open>_extract_json\<close> (its result is used as a
  dictionary), \<^verbatim>\<open>_get_hours_on_duty\<close>, \<^verbatim>\<open>_get_hours\<close>, \<^verbatim>\<open>_format_full_transcript\<close>,
  the printing of a timestamp, \<^verbatim>\<open>download_from_s3\<close>, \<^verbatim>\<open>get_shift_metadata\<close>,
  \<^verbatim>\<open>transcribe\<close>, whether \<^verbatim>\<open>save_to_database\<close> and \<^verbatim>\<open>upload_report_to_s3\<close> raise,
  \<^verbatim>\<open>datetime.now()\<close>, and the module's global names.
\<close>

record env =
  messages_create :: "nat \<Rightarrow> request \<Rightarrow> exception + string"
  extract_json :: "string \<Rightarrow> exception + py_dict"
  get_hours_on_duty :: "py_dict \<Rightarrow> exception + json"
  get_hours :: "py_dict \<Rightarrow> exception + json"
  format_full_transcript :: "transcript \<Rightarrow> exception + string"
  str_of_timestamp :: "rat \<Rightarrow> string"
  download_from_s3 :: "string \<Rightarrow> exception + string"
  get_shift_metadata :: "string \<Rightarrow> exception + py_dict"
  transcribe :: "string \<Rightarrow> exception + transcript"
  save_fault :: "py_dict \<Rightarrow> exception option"
  upload_fault :: "string \<Rightarrow> py_dict \<Rightarrow> exception option"
  now :: json
  globals :: "string \<Rightarrow> py_dict option"

text \<open>The state: the requests sent to the backend so far, the report store, the reports
  uploaded to S3, the error log and the trace.\<close>

record state =
  llm_calls :: "request list"
  database :: "string \<Rightarrow> py_dict option"
  s3_reports :: "string \<Rightarrow> py_dict option"
  error_log :: "(string \<times> exception) list"
  trace :: "event list"

definition record_event :: "event \<Rightarrow> state \<Rightarrow> state" where
  "record_event ev st = st\<lparr>trace := trace st @ [ev]\<rparr>"

text \<open>
  \<^verbatim>\<open>
  response = self.client.messages.create(
      model="claude-sonnet-4-20250514", max_tokens=N,
      messages=[{"role": "user", "content": prompt}])
  \<close>
  One call of the backend: the request is sent once, and the reply or the exception of
  that one call is the outcome. No agent wraps this call in a loop or a handler.
\<close>

definition model_name :: string where
  "model_name = ''claude-sonnet-4-20250514''"

definition call_model :: "env \<Rightarrow> nat \<Rightarrow> prompt \<Rightarrow> state \<Rightarrow> (exception + string) \<times> state" where
  "call_model env max_tokens p st =
     (let req = Request model_name max_tokens p
      in (messages_create env (length (llm_calls st)) req,
          st\<lparr>llm_calls := llm_calls st @ [req]\<rparr>))"

section \<open>The three agents\<close>

text \<open>
  \<^verbatim>\<open>
  async def analyze(self, transcript, metadata):            # FatigueAgent
      response_times = self._calculate_response_times(transcript)
      hesitation_count = self._count_hesitations(transcript)
      hours_on_duty = self._get_hours_on_duty(metadata)
      prompt = f"""... {hours_on_duty} ... {metadata['start_time']} ...
          {metadata['schedule_type']} ... {metadata['position']} ...
          {response_times['avg']:.1f} ... {hesitation_count} ... {len(transcript)} ...
          {self._format_samples(transcript, num_samples=10)} ..."""
      response = self.client.messages.create(..., max_tokens=2000, ...)
      result = self._extract_json(response.content[0].text)
      result['metrics'] = {
          'avg_response_time': response_times['avg'],
          'max_response_time': response_times['max'],
          'hesitation_count': hesitation_count,
          'hours_on_duty': hours_on_duty
      }
      return result
  \<close>
\<close>

definition fatigue_prompt ::
  "env \<Rightarrow> transcript \<Rightarrow> py_dict \<Rightarrow> response_times \<Rightarrow> nat \<Rightarrow> json \<Rightarrow> exception + prompt" where
  "fatigue_prompt env transcript metadata response_times hesitation_count hours_on_duty =
     and_then (dict_get metadata ''start_time'') (\<lambda>start_time.
     and_then (dict_get metadata ''schedule_type'') (\<lambda>schedule_type.
     and_then (dict_get metadata ''position'') (\<lambda>position.
     and_then (format_samples (str_of_timestamp env) transcript 10) (\<lambda>samples.
       Inr (FatiguePrompt hours_on_duty start_time schedule_type position
              (avg response_times) hesitation_count (length transcript) samples)))))"

definition fatigue_metrics :: "response_times \<Rightarrow> nat \<Rightarrow> json \<Rightarrow> json" where
  "fatigue_metrics response_times hesitation_count hours_on_duty =
     JDict [(''avg_response_time'', JNum (avg response_times)),
            (''max_response_time'', JNum (max_time response_times)),
            (''hesitation_count'', JNum (of_nat hesitation_count)),
            (''hours_on_duty'', hours_on_duty)]"

definition FatigueAgent_analyze ::
  "env \<Rightarrow> transcript \<Rightarrow> py_dict \<Rightarrow> state \<Rightarrow> (exception + py_dict) \<times> state" where
  "FatigueAgent_analyze env transcript metadata st =
     (let st0 = record_event (Invoked Fatigue []) st;
          response_times = calculate_response_times transcript;
          hesitation_count = count_hesitations transcript
      in case get_hours_on_duty env metadata of
           Inl e \<Rightarrow> (Inl e, st0)
         | Inr hours_on_duty \<Rightarrow>
            (case fatigue_prompt env transcript metadata response_times hesitation_count
                    hours_on_duty of
               Inl e \<Rightarrow> (Inl e, st0)
             | Inr p \<Rightarrow>
                (case call_model env 2000 p st0 of
                   (Inl e, st1) \<Rightarrow> (Inl e, st1)
                 | (Inr response, st1) \<Rightarrow>
                    (case extract_json env response of
                       Inl e \<Rightarrow> (Inl e, st1)
                     | Inr result \<Rightarrow>
                        (let result' = dict_set result ''metrics''
                               (fatigue_metrics response_times hesitation_count hours_on_duty)
                         in (Inr result', record_event (Returned Fatigue result') st1))))))"

text \<open>
  \<^verbatim>\<open>
  async def analyze(self, transcript, metadata):            # SafetyAgent
      prompt = f"""... {metadata['facility']} ... {metadata['position']} ...
          {self._format_full_transcript(transcript)} ..."""
      response = self.client.messages.create(..., max_tokens=3000, ...)
      return self._extract_json(response.content[0].text)
  \<close>
\<close>

definition safety_prompt :: "env \<Rightarrow> transcript \<Rightarrow> py_dict \<Rightarrow> exception + prompt" where
  "safety_prompt env transcript metadata =
     and_then (dict_get metadata ''facility'') (\<lambda>facility.
     and_then (dict_get metadata ''position'') (\<lambda>position.
     and_then (format_full_transcript env transcript) (\<lambda>full.
       Inr (SafetyPrompt facility position full))))"

definition SafetyAgent_analyze ::
  "env \<Rightarrow> transcript \<Rightarrow> py_dict \<Rightarrow> state \<Rightarrow> (exception + py_dict) \<times> state" where
  "SafetyAgent_analyze env transcript metadata st =
     (let st0 = record_event (Invoked Safety []) st
      in case safety_prompt env transcript metadata of
           Inl e \<Rightarrow> (Inl e, st0)
         | Inr p \<Rightarrow>
            (case call_model env 3000 p st0 of
               (Inl e, st1) \<Rightarrow> (Inl e, st1)
             | (Inr response, st1) \<Rightarrow>
                (case extract_json env response of
                   Inl e \<Rightarrow> (Inl e, st1)
                 | Inr result \<Rightarrow> (Inr result, record_event (Returned Safety result) st1))))"

text \<open>
  \<^verbatim>\<open>
  async def analyze(self, transcript, metadata, fatigue_result, safety_result):
      prompt = f"""... {metadata['controller_id']} ... {metadata['start_time']} ...
          {self._get_hours(metadata)} ... {metadata['position']} ...
          {metadata['schedule_type']} ...
          {fatigue_result['fatigue_score']} ... {fatigue_result['severity']} ...
          {fatigue_result['indicators']} ...
          {safety_result['safety_score']} ... {len(safety_result['issues_found'])} ...
          {safety_result['requires_immediate_review']} ..."""
      response = self.client.messages.create(..., max_tokens=2500, ...)
      return self._extract_json(response.content[0].text)
  \<close>
\<close>

definition summarizer_prompt ::
  "env \<Rightarrow> py_dict \<Rightarrow> py_dict \<Rightarrow> py_dict \<Rightarrow> exception + prompt" where
  "summarizer_prompt env metadata fatigue_result safety_result =
     and_then (dict_get metadata ''controller_id'') (\<lambda>controller_id.
     and_then (dict_get metadata ''start_time'') (\<lambda>start_time.
     and_then (get_hours env metadata) (\<lambda>hours.
     and_then (dict_get metadata ''position'') (\<lambda>position.
     and_then (dict_get metadata ''schedule_type'') (\<lambda>schedule_type.
     and_then (dict_get fatigue_result ''fatigue_score'') (\<lambda>fatigue_score.
     and_then (dict_get fatigue_result ''severity'') (\<lambda>severity.
     and_then (dict_get fatigue_result ''indicators'') (\<lambda>indicators.
     and_then (dict_get safety_result ''safety_score'') (\<lambda>safety_score.
     and_then (dict_get safety_result ''issues_found'') (\<lambda>issues_found.
     and_then (py_len issues_found) (\<lambda>issues.
     and_then (dict_get safety_result ''requires_immediate_review'') (\<lambda>review.
       Inr (SummarizerPrompt controller_id start_time hours position schedule_type
              fatigue_score severity indicators safety_score issues review)))))))))))))"

definition SummarizerAgent_analyze ::
  "env \<Rightarrow> transcript \<Rightarrow> py_dict \<Rightarrow> py_dict \<Rightarrow> py_dict \<Rightarrow> state
     \<Rightarrow> (exception + py_dict) \<times> state" where
  "SummarizerAgent_analyze env transcript metadata fatigue_result safety_result st =
     (let st0 = record_event (Invoked Summarizer [fatigue_result, safety_result]) st
      in case summarizer_prompt env metadata fatigue_result safety_result of
           Inl e \<Rightarrow> (Inl e, st0)
         | Inr p \<Rightarrow>
            (case call_model env 2500 p st0 of
               (Inl e, st1) \<Rightarrow> (Inl e, st1)
             | (Inr response, st1) \<Rightarrow>
                (case extract_json env response of
                   Inl e \<Rightarrow> (Inl e, st1)
                 | Inr result \<Rightarrow> (Inr result, record_event (Returned Summarizer result) st1))))"

section \<open>The pipeline\<close>

text \<open>
  Modelled from the spec: \<^verbatim>\<open>save_to_database\<close>, \<^verbatim>\<open>upload_report_to_s3\<close>,
  \<^verbatim>\<open>get_from_database\<close> and \<^verbatim>\<open>log_error\<close> are called but not defined in the document. The
  Report Store is keyed by shift id and a write is all-or-nothing
  (\<^verbatim>\<open>put(shiftId, AnalysisReport)\<close>, \<^verbatim>\<open>get(shiftId)\<close>): a write either raises and changes
  nothing, or stores the whole report under the shift id.
\<close>

definition save_to_database ::
  "env \<Rightarrow> string \<Rightarrow> py_dict \<Rightarrow> state \<Rightarrow> (exception + unit) \<times> state" where
  "save_to_database env shift_id report st =
     (case save_fault env report of
        Some e \<Rightarrow> (Inl e, st)
      | None \<Rightarrow> (Inr (), st\<lparr>database := (database st)(shift_id \<mapsto> report)\<rparr>))"

definition upload_report_to_s3 ::
  "env \<Rightarrow> string \<Rightarrow> py_dict \<Rightarrow> state \<Rightarrow> (exception + unit) \<times> state" where
  "upload_report_to_s3 env shift_id report st =
     (case upload_fault env shift_id report of
        Some e \<Rightarrow> (Inl e, st)
      | None \<Rightarrow> (Inr (), st\<lparr>s3_reports := (s3_reports st)(shift_id \<mapsto> report)\<rparr>))"

definition log_error :: "string \<Rightarrow> exception \<Rightarrow> state \<Rightarrow> state" where
  "log_error shift_id e st = st\<lparr>error_log := error_log st @ [(shift_id, e)]\<rparr>"

definition get_report :: "string \<Rightarrow> state \<Rightarrow> py_dict option" where
  "get_report shift_id st = database st shift_id"

text \<open>
  \<^verbatim>\<open>
  async def process_shift(shift_id: str):
      try:
          audio_data = download_from_s3(shift_id)
          metadata = get_shift_metadata(shift_id)
          transcript = await transcribe(audio_data)
          fatigue = await FatigueAgent().analyze(transcript, metadata)
          safety = await SafetyAgent().analyze(transcript, metadata)
          summary = await SummarizerAgent().analyze(
              transcript, metadata, fatigue, safety)
          save_to_database({'shift_id': shift_id, 'fatigue': fatigue,
                            'safety': safety, 'summary': summary})
          upload_report_to_s3(shift_id, summary)
          return {"status": "complete"}
      except Exception as e:
          log_error(shift_id, e)
          return {"status": "failed", "error": str(e)}
  \<close>
\<close>

definition shift_report :: "string \<Rightarrow> py_dict \<Rightarrow> py_dict \<Rightarrow> py_dict \<Rightarrow> py_dict" where
  "shift_report shift_id fatigue safety summary =
     [(''shift_id'', JStr shift_id), (''fatigue'', JDict fatigue),
      (''safety'', JDict safety), (''summary'', JDict summary)]"

definition process_shift_try :: "env \<Rightarrow> string \<Rightarrow> state \<Rightarrow> (exception + unit) \<times> state" where
  "process_shift_try env shift_id st =
     (case download_from_s3 env shift_id of
        Inl e \<Rightarrow> (Inl e, st)
      | Inr audio_data \<Rightarrow>
     (case get_shift_metadata env shift_id of
        Inl e \<Rightarrow> (Inl e, st)
      | Inr metadata \<Rightarrow>
     (case transcribe env audio_data of
        Inl e \<Rightarrow> (Inl e, st)
      | Inr transcript \<Rightarrow>
     (case FatigueAgent_analyze env transcript metadata st of
        (Inl e, st1) \<Rightarrow> (Inl e, st1)
      | (Inr fatigue, st1) \<Rightarrow>
     (case SafetyAgent_analyze env transcript metadata st1 of
        (Inl e, st2) \<Rightarrow> (Inl e, st2)
      | (Inr safety, st2) \<Rightarrow>
     (case SummarizerAgent_analyze env transcript metadata fatigue safety st2 of
        (Inl e, st3) \<Rightarrow> (Inl e, st3)
      | (Inr summary, st3) \<Rightarrow>
     (case save_to_database env shift_id (shift_report shift_id fatigue safety summary) st3 of
        (Inl e, st4) \<Rightarrow> (Inl e, st4)
      | (Inr u, st4) \<Rightarrow> upload_report_to_s3 env shift_id summary st4)))))))"

datatype run_status = Complete | Failed exception

definition process_shift :: "env \<Rightarrow> string \<Rightarrow> state \<Rightarrow> run_status \<times> state" where
  "process_shift env shift_id st =
     (case process_shift_try env shift_id st of
        (Inl e, st') \<Rightarrow> (Failed e, log_error shift_id e st')
      | (Inr u, st') \<Rightarrow> (Complete, st'))"

text \<open>
  The endpoint of \<^verbatim>\<open>main.py\<close>:
  \<^verbatim>\<open>
  @app.post("/analyze-shift")
  async def analyze_shift(shift_id: str, background_tasks: BackgroundTasks):
      background_tasks.add_task(process_shift, shift_id)
      return {"status": "processing", "shift_id": shift_id}
  \<close>
  The background tasks are the shift ids whose \<^verbatim>\<open>process_shift\<close> has been added and has
  not finished: the runs in flight.
\<close>

definition analyze_shift :: "string \<Rightarrow> string list \<Rightarrow> py_dict \<times> string list" where
  "analyze_shift shift_id background_tasks =
     ([(''status'', JStr ''processing''), (''shift_id'', JStr shift_id)],
      background_tasks @ [shift_id])"

text \<open>A sequence of requests, served one after the other while no run finishes.\<close>

fun serve :: "string list \<Rightarrow> string list \<Rightarrow> py_dict list \<times> string list" where
  "serve [] background_tasks = ([], background_tasks)"
| "serve (shift_id # rest) background_tasks =
     (case analyze_shift shift_id background_tasks of
        (response, tasks1) \<Rightarrow>
          (case serve rest tasks1 of
             (responses, tasks2) \<Rightarrow> (response # responses, tasks2)))"

text \<open>
  The processing flow of the design's section 4.2, also named \<^verbatim>\<open>analyze_shift\<close>:
  \<^verbatim>\<open>
  async def analyze_shift(shift_id: str):
      audio_file = await s3_client.download(shift_id)
      metadata = await s3_client.get_metadata(shift_id)
      transcript = await transcribe_audio(audio_file)
      # Step 3: Run 3 agents in parallel
      results = await asyncio.gather(
          fatigue_agent.analyze(transcript, metadata),
          safety_agent.analyze(transcript, metadata),
          summarizer_agent.analyze(transcript, metadata, fatigue_result, safety_result)
      )
      final_report = {"shift_id": shift_id, "fatigue_analysis": results[0],
                      "safety_analysis": results[1], "summary": results[2],
                      "generated_at": datetime.now()}
      await db.save_report(final_report)
      await s3_client.upload_report(final_report)
      return final_report
  \<close>
  The arguments of \<^verbatim>\<open>asyncio.gather\<close> are evaluated before it is called. Calling an
  \<^verbatim>\<open>async def\<close> only creates a coroutine object, so no agent has run at that point; the
  third argument reads \<^verbatim>\<open>fatigue_result\<close> and \<^verbatim>\<open>safety_result\<close>, which the function never
  assigns, so they are looked up among the global names and raise \<^verbatim>\<open>NameError\<close> when
  absent. When present, the three coroutines become tasks in argument order; no agent
  awaits, so each task runs to its end in turn, and \<^verbatim>\<open>gather\<close> raises the first exception.
  There is no handler: an exception leaves the function.
\<close>

definition final_report :: "env \<Rightarrow> string \<Rightarrow> py_dict \<Rightarrow> py_dict \<Rightarrow> py_dict \<Rightarrow> py_dict" where
  "final_report env shift_id r0 r1 r2 =
     [(''shift_id'', JStr shift_id), (''fatigue_analysis'', JDict r0),
      (''safety_analysis'', JDict r1), (''summary'', JDict r2),
      (''generated_at'', now env)]"

definition analyze_shift_flow :: "env \<Rightarrow> string \<Rightarrow> state \<Rightarrow> (exception + py_dict) \<times> state" where
  "analyze_shift_flow env shift_id st =
     (case download_from_s3 env shift_id of
        Inl e \<Rightarrow> (Inl e, st)
      | Inr audio_file \<Rightarrow>
     (case get_shift_metadata env shift_id of
        Inl e \<Rightarrow> (Inl e, st)
      | Inr metadata \<Rightarrow>
     (case transcribe env audio_file of
        Inl e \<Rightarrow> (Inl e, st)
      | Inr transcript \<Rightarrow>
     (case globals env ''fatigue_result'' of
        None \<Rightarrow> (Inl (NameError ''fatigue_result''), st)
      | Some fatigue_result \<Rightarrow>
     (case globals env ''safety_result'' of
        None \<Rightarrow> (Inl (NameError ''safety_result''), st)
      | Some safety_result \<Rightarrow>
     (case FatigueAgent_analyze env transcript metadata st of (res0, st1) \<Rightarrow>
     (case SafetyAgent_analyze env transcript metadata st1 of (res1, st2) \<Rightarrow>
     (case SummarizerAgent_analyze env transcript metadata fatigue_result safety_result st2 of
        (res2, st3) \<Rightarrow>
     (case res0 of Inl e \<Rightarrow> (Inl e, st3) | Inr r0 \<Rightarrow>
     (case res1 of Inl e \<Rightarrow> (Inl e, st3) | Inr r1 \<Rightarrow>
     (case res2 of Inl e \<Rightarrow> (Inl e, st3) | Inr r2 \<Rightarrow>
     (case save_to_database env shift_id (final_report env shift_id r0 r1 r2) st3 of
        (Inl e, st4) \<Rightarrow> (Inl e, st4)
      | (Inr u, st4) \<Rightarrow>
     (case upload_report_to_s3 env shift_id (final_report env shift_id r0 r1 r2) st4 of
        (Inl e, st5) \<Rightarrow> (Inl e, st5)
      | (Inr u', st5) \<Rightarrow> (Inr (final_report env shift_id r0 r1 r2), st5))))))))))))))"

section \<open>A concrete world\<close>

text \<open>One shift with well-formed metadata and a transcript of 25 entries, a backend that
  answers every call, and an extractor that returns a result with the fields the
  summarizer reads.\<close>

definition sample_metadata :: py_dict where
  "sample_metadata =
     [(''shift_id'', JStr ''shift_20240115_001''), (''controller_id'', JStr ''CTR_123''),
      (''facility'', JStr ''facility_001''), (''start_time'', JStr ''2024-01-15T06:00:00Z''),
      (''end_time'', JStr ''2024-01-15T14:00:00Z''), (''position'', JStr ''tower''),
      (''schedule_type'', JStr ''2-2-1''), (''traffic_count_avg'', JNum 8)]"

definition sample_result :: py_dict where
  "sample_result =
     [(''fatigue_score'', JNum 58), (''severity'', JStr ''medium''), (''indicators'', JList []),
      (''requires_attention'', JBool True), (''summary'', JStr ''moderate fatigue''),
      (''safety_score'', JNum 15), (''issues_found'', JList []),
      (''requires_immediate_review'', JBool False), (''metrics'', JStr ''from the model'')]"

definition sample_env :: env where
  "sample_env =
     \<lparr> messages_create = (\<lambda>n req. Inr ''{...}''),
       extract_json = (\<lambda>s. Inr sample_result),
       get_hours_on_duty = (\<lambda>m. Inr (JNum 8)),
       get_hours = (\<lambda>m. Inr (JNum 8)),
       format_full_transcript = (\<lambda>t. Inr ''...''),
       str_of_timestamp = (\<lambda>r. ''0''),
       download_from_s3 = (\<lambda>s. Inr ''audio''),
       get_shift_metadata = (\<lambda>s. Inr sample_metadata),
       transcribe = (\<lambda>a. Inr long_transcript),
       save_fault = (\<lambda>r. None),
       upload_fault = (\<lambda>s r. None),
       now = JStr ''2024-01-15T15:00:00Z'',
       globals = (\<lambda>name. None) \<rparr>"

definition initial_state :: state where
  "initial_state =
     \<lparr> llm_calls = [], database = (\<lambda>k. None), s3_reports = (\<lambda>k. None),
       error_log = [], trace = [] \<rparr>"

text \<open>The same world with a backend whose first call times out and whose later calls
  answer, and the same world with the spec's short transcript.\<close>

definition timeout_env :: env where
  "timeout_env =
     sample_env\<lparr> messages_create := (\<lambda>n req. if n = 0 then Inl APITimeoutError else Inr ''{...}'') \<rparr>"

definition short_env :: env where
  "short_env = sample_env\<lparr> transcribe := (\<lambda>a. Inr example_transcript) \<rparr>"

section \<open>Notions used to state the pipeline's properties\<close>

text \<open>The stages of \<^verbatim>\<open>process_shift\<close> before anything is written: the first six
  statements of its \<^verbatim>\<open>try\<close> block, with the first exception raised or the three agent
  results.\<close>

definition run_stages ::
  "env \<Rightarrow> string \<Rightarrow> state \<Rightarrow> (exception + py_dict \<times> py_dict \<times> py_dict) \<times> state" where
  "run_stages env shift_id st =
     (case download_from_s3 env shift_id of
        Inl e \<Rightarrow> (Inl e, st)
      | Inr audio_data \<Rightarrow>
     (case get_shift_metadata env shift_id of
        Inl e \<Rightarrow> (Inl e, st)
      | Inr metadata \<Rightarrow>
     (case transcribe env audio_data of
        Inl e \<Rightarrow> (Inl e, st)
      | Inr transcript \<Rightarrow>
     (case FatigueAgent_analyze env transcript metadata st of
        (Inl e, st1) \<Rightarrow> (Inl e, st1)
      | (Inr fatigue, st1) \<Rightarrow>
     (case SafetyAgent_analyze env transcript metadata st1 of
        (Inl e, st2) \<Rightarrow> (Inl e, st2)
      | (Inr safety, st2) \<Rightarrow>
     (case SummarizerAgent_analyze env transcript metadata fatigue safety st2 of
        (Inl e, st3) \<Rightarrow> (Inl e, st3)
      | (Inr summary, st3) \<Rightarrow> (Inr (fatigue, safety, summary), st3)))))))"

text \<open>What one agent invocation does with the backend when it has no retry: either it
  fails before any call, or it makes exactly one call, and then an exception of that
  call or of the extraction of its reply is the invocation's own outcome.\<close>

definition single_call_outcome :: "env \<Rightarrow> state \<Rightarrow> (exception + py_dict) \<times> state \<Rightarrow> bool" where
  "single_call_outcome env st out \<longleftrightarrow>
     (llm_calls (snd out) = llm_calls st \<and> isl (fst out))
     \<or> (\<exists>req. llm_calls (snd out) = llm_calls st @ [req]
          \<and> (case messages_create env (length (llm_calls st)) req of
                Inl e \<Rightarrow> fst out = Inl e
              | Inr reply \<Rightarrow>
                 (case extract_json env reply of
                    Inl e \<Rightarrow> fst out = Inl e
                  | Inr d \<Rightarrow> \<not> isl (fst out))))"

text \<open>In a trace, every entry into the Summarizer comes after a returned Fatigue result and
  a returned Safety result, and was given exactly these two.\<close>

definition summarizer_after_both :: "event list \<Rightarrow> bool" where
  "summarizer_after_both tr \<longleftrightarrow>
     (\<forall>pre args post. tr = pre @ Invoked Summarizer args # post \<longrightarrow>
        (\<exists>f s. args = [f, s] \<and> Returned Fatigue f \<in> set pre \<and> Returned Safety s \<in> set pre))"

text \<open>The keys of the block stored under \<^verbatim>\<open>'metrics'\<close> in a result.\<close>

definition metric_keys :: "py_dict \<Rightarrow> string list" where
  "metric_keys result =
     (case map_of result ''metrics'' of Some (JDict m) \<Rightarrow> map fst m | _ \<Rightarrow> [])"



text \<open>The prompt the Fatigue agent builds in the sample world.\<close>

definition sample_fatigue_prompt :: prompt where
  "sample_fatigue_prompt =
     FatiguePrompt (JNum 8) (JStr ''2024-01-15T06:00:00Z'') (JStr ''2-2-1'') (JStr ''tower'')
       1 12 25
       (str_join [CHR 0x0A] (replicate 10 ''[0] PILOT: roger''))"

section \<open>The upload form\<close>

text \<open>
  \<^verbatim>\<open>UploadAudio\<close> in \<^verbatim>\<open>ShiftSelection.tsx\<close>. A JavaScript number is a rational, an
  infinity or \<^verbatim>\<open>NaN\<close>; every comparison with \<^verbatim>\<open>NaN\<close> is false.
\<close>

datatype js_number = NaN | Finite rat | PlusInfinity | MinusInfinity

fun js_less :: "js_number \<Rightarrow> js_number \<Rightarrow> bool" where
  "js_less NaN b = False"
| "js_less a NaN = False"
| "js_less (Finite x) (Finite y) = (x < y)"
| "js_less (Finite x) PlusInfinity = True"
| "js_less (Finite x) MinusInfinity = False"
| "js_less PlusInfinity b = False"
| "js_less MinusInfinity MinusInfinity = False"
| "js_less MinusInfinity b = True"

definition js_greater :: "js_number \<Rightarrow> js_number \<Rightarrow> bool" where
  "js_greater a b = js_less b a"

definition js_less_eq :: "js_number \<Rightarrow> js_number \<Rightarrow> bool" where
  "js_less_eq a b = (js_less a b \<or> (a \<noteq> NaN \<and> a = b))"

record js_file =
  file_name :: string
  file_type :: string

record upload_form_data =
  shiftId :: string
  controllerId :: string
  facility :: string
  startTime :: string
  endTime :: string
  position :: string
  scheduleType :: string
  trafficCountAvg :: js_number

text \<open>The browser: \<^verbatim>\<open>new Date(s).getTime()\<close> (\<^verbatim>\<open>NaN\<close> for a string that is no date),
  \<^verbatim>\<open>getAudioDuration(file)\<close> (the duration the audio element reports once its metadata
  has loaded, 0 when it fails to load), and \<^verbatim>\<open>(duration / 60).toFixed(1)\<close>.\<close>

record browser =
  date_get_time :: "string \<Rightarrow> js_number"
  getAudioDuration :: "js_file \<Rightarrow> js_number"
  minutes_to_fixed :: "js_number \<Rightarrow> string"

record upload_state =
  audioFile :: "js_file option"
  errors :: "(string \<times> string) list"
  isSubmitting :: bool
  successMessage :: string
  formData :: upload_form_data

definition initial_form_data :: upload_form_data where
  "initial_form_data =
     \<lparr> shiftId = '''', controllerId = '''', facility = '''', startTime = '''', endTime = '''',
       position = ''tower'', scheduleType = ''2-2-1'', trafficCountAvg = Finite 8 \<rparr>"

text \<open>
  \<^verbatim>\<open>
  const handleAudioChange = async (e) => {
    const file = e.target.files?.[0]
    if (!file) return
    const newErrors: Record<string, string> = {}
    const validTypes = ['audio/mpeg', 'audio/wav', 'audio/mp4', 'audio/ogg', 'audio/flac']
    if (!validTypes.includes(file.type)) {
      newErrors.audioFile = 'Invalid audio format. Please upload MP3, WAV, M4A, OGG, or FLAC.'
      setErrors(newErrors)
      setAudioFile(null)
      return
    }
    const duration = await getAudioDuration(file)
    const maxDurationSeconds = 30 * 60 // 30 minutes
    if (duration > maxDurationSeconds) {
      newErrors.audioFile = `Audio file is too long. Maximum duration is 30 minutes (${...} minutes provided).`
      setAudioFile(null)
      setErrors(newErrors)
      return
    }
    setAudioFile(file)
    setErrors((prev) => { const updated = { ...prev }; delete updated.audioFile; return updated })
  }
  \<close>
\<close>

definition validTypes :: "string list" where
  "validTypes = [''audio/mpeg'', ''audio/wav'', ''audio/mp4'', ''audio/ogg'', ''audio/flac'']"

definition maxDurationSeconds :: js_number where
  "maxDurationSeconds = Finite (30 * 60)"

definition handleAudioChange :: "browser \<Rightarrow> js_file option \<Rightarrow> upload_state \<Rightarrow> upload_state" where
  "handleAudioChange b selected st =
     (case selected of
        None \<Rightarrow> st
      | Some file \<Rightarrow>
          if file_type file \<notin> set validTypes then
            st\<lparr> errors := [(''audioFile'',
                    ''Invalid audio format. Please upload MP3, WAV, M4A, OGG, or FLAC.'')],
                audioFile := None \<rparr>
          else
            (let duration = getAudioDuration b file in
             if js_greater duration maxDurationSeconds then
               st\<lparr> audioFile := None,
                   errors := [(''audioFile'',
                     ''Audio file is too long. Maximum duration is 30 minutes (''
                       @ minutes_to_fixed b duration @ '' minutes provided).'')] \<rparr>
             else
               st\<lparr> audioFile := Some file,
                   errors := AList.delete ''audioFile'' (errors st) \<rparr>))"

text \<open>
  \<^verbatim>\<open>validateForm\<close> collects the errors in a fresh object, stores it and accepts when it
  has no key. \<^verbatim>\<open>!s.trim()\<close> holds when \<open>s\<close> has only white space (here the ASCII white
  space); \<^verbatim>\<open>!s\<close> holds for the empty string.
  \<^verbatim>\<open>
    if (formData.startTime && formData.endTime) {
      const start = new Date(formData.startTime).getTime()
      const end = new Date(formData.endTime).getTime()
      if (end <= start) {
        newErrors.endTime = 'End time must be after start time'
      }
    }
  \<close>
\<close>

definition js_whitespace :: "char \<Rightarrow> bool" where
  "js_whitespace c \<longleftrightarrow> (of_char c :: nat) \<in> {9, 10, 11, 12, 13, 32}"

definition js_trim :: "string \<Rightarrow> string" where
  "js_trim s = rev (dropWhile js_whitespace (rev (dropWhile js_whitespace s)))"

definition set_error :: "string \<Rightarrow> string \<Rightarrow> (string \<times> string) list \<Rightarrow> (string \<times> string) list" where
  "set_error k msg errs = AList.update k msg errs"

text \<open>Each statement \<^verbatim>\<open>if (failed) { newErrors.key = message }\<close> is one check, applied in
  the order of the source to the error object built so far.\<close>

definition apply_check ::
  "(string \<times> string) list \<Rightarrow> bool \<times> string \<times> string \<Rightarrow> (string \<times> string) list" where
  "apply_check newErrors chk =
     (case chk of (failed, key, message) \<Rightarrow>
        if failed then set_error key message newErrors else newErrors)"

definition form_checks :: "browser \<Rightarrow> upload_state \<Rightarrow> (bool \<times> string \<times> string) list" where
  "form_checks b st =
     (let fd = formData st in
      [(audioFile st = None, ''audioFile'', ''Please select an audio file''),
       (js_trim (shiftId fd) = [], ''shiftId'', ''Shift ID is required''),
       (js_trim (controllerId fd) = [], ''controllerId'', ''Controller ID is required''),
       (js_trim (facility fd) = [], ''facility'', ''Facility is required''),
       (startTime fd = [], ''startTime'', ''Start time is required''),
       (endTime fd = [], ''endTime'', ''End time is required''),
       (startTime fd \<noteq> [] \<and> endTime fd \<noteq> []
          \<and> js_less_eq (date_get_time b (endTime fd)) (date_get_time b (startTime fd)),
        ''endTime'', ''End time must be after start time''),
       (js_trim (position fd) = [], ''position'', ''Position is required''),
       (js_trim (scheduleType fd) = [], ''scheduleType'', ''Schedule type is required''),
       (js_less (trafficCountAvg fd) (Finite 0), ''trafficCountAvg'',
        ''Traffic count must be non-negative'')])"

definition form_errors :: "browser \<Rightarrow> upload_state \<Rightarrow> (string \<times> string) list" where
  "form_errors b st = foldl apply_check [] (form_checks b st)"

definition validateForm :: "browser \<Rightarrow> upload_state \<Rightarrow> upload_state \<times> bool" where
  "validateForm b st =
     (let newErrors = form_errors b st
      in (st\<lparr>errors := newErrors\<rparr>, length (map fst newErrors) = 0))"

text \<open>
  \<^verbatim>\<open>handleSubmit\<close> returns at once when \<^verbatim>\<open>validateForm()\<close> is false. Otherwise the upload
  is simulated (a delay, nothing that can fail), the success message announces the
  queued analysis and the form is reset.
  \<^verbatim>\<open>
    if (!validateForm()) { return }
    setIsSubmitting(true)
    try {
      ...
      setSuccessMessage(`Successfully queued analysis for shift ${formData.shiftId}`)
      setAudioFile(null)
      setFormData({ shiftId: '', ... })
      ...
    } catch (error) { setErrors({ submit: 'Failed to upload audio. Please try again.' })
    } finally { setIsSubmitting(false) }
  \<close>
\<close>

definition handleSubmit :: "browser \<Rightarrow> upload_state \<Rightarrow> upload_state" where
  "handleSubmit b st =
     (case validateForm b st of
        (st1, ok) \<Rightarrow>
          if \<not> ok then st1
          else st1\<lparr> successMessage :=
                      ''Successfully queued analysis for shift '' @ shiftId (formData st1),
                    audioFile := None,
                    formData := initial_form_data,
                    isSubmitting := False \<rparr>)"

text \<open>A browser and a filled form for concrete runs: times are minutes since midnight
  of the day, read off an \<open>HH:MM\<close> suffix by a table.\<close>

definition sample_browser :: browser where
  "sample_browser =
     \<lparr> date_get_time = (\<lambda>s. if s = ''2024-01-15T06:00'' then Finite 360
                             else if s = ''2024-01-15T14:00'' then Finite 840 else NaN),
       getAudioDuration = (\<lambda>f. if file_name f = ''long.mp3'' then Finite 2400
                                   else if file_name f = ''shift.mp3'' then Finite 1500
                                   else Finite 0),
       minutes_to_fixed = (\<lambda>d. ''40.0'') \<rparr>"

definition sample_form :: upload_form_data where
  "sample_form =
     \<lparr> shiftId = ''shift_20240115_001'', controllerId = ''CTR_123'', facility = ''facility_001'',
       startTime = ''2024-01-15T06:00'', endTime = ''2024-01-15T14:00'',
       position = ''tower'', scheduleType = ''2-2-1'', trafficCountAvg = Finite 8 \<rparr>"

definition sample_upload :: upload_state where
  "sample_upload =
     \<lparr> audioFile = Some \<lparr>file_name = ''shift.mp3'', file_type = ''audio/mpeg''\<rparr>,
       errors = [], isSubmitting = False, successMessage = '''', formData = sample_form \<rparr>"


definition long_file :: js_file where
  "long_file = \<lparr>file_name = ''long.mp3'', file_type = ''audio/mpeg''\<rparr>"

definition text_file :: js_file where
  "text_file = \<lparr>file_name = ''notes.txt'', file_type = ''text/plain''\<rparr>"

definition good_file :: js_file where
  "good_file = \<lparr>file_name = ''shift.mp3'', file_type = ''audio/mpeg''\<rparr>"

section \<open>Response times: proofs\<close>










section \<open>Hesitations: proofs\<close>

lemma str_count_short: "sub \<noteq> [] \<Longrightarrow> length s < length sub \<Longrightarrow> str_count s sub = 0"
  by (subst str_count.simps) simp

lemma str_count_hit:
  "sub \<noteq> [] \<Longrightarrow> length sub \<le> length s \<Longrightarrow> take (length sub) s = sub \<Longrightarrow>
   str_count s sub = 1 + str_count (drop (length sub) s) sub"
  by (subst str_count.simps) simp

lemma str_count_miss:
  "sub \<noteq> [] \<Longrightarrow> length sub \<le> length s \<Longrightarrow> take (length sub) s \<noteq> sub \<Longrightarrow>
   str_count s sub = str_count (tl s) sub"
  by (subst str_count.simps) simp

text \<open>Dropping a prefix never raises the count, and dropping at most one pattern
  length lowers it by at most one.\<close>

lemma str_count_drop_bounds:
  assumes "sub \<noteq> []"
  shows "(\<forall>k. str_count (drop k s) sub \<le> str_count s sub) \<and>
         (\<forall>k \<le> length sub. str_count s sub \<le> 1 + str_count (drop k s) sub)"
proof (induction s rule: length_induct)
  case (1 s)
  let ?n = "length sub"
  have IH1: "str_count (drop k u) sub \<le> str_count u sub" if "length u < length s" for u k
    using 1 that by blast
  have IH2: "str_count u sub \<le> 1 + str_count (drop k u) sub"
    if "length u < length s" "k \<le> ?n" for u k
    using 1 that by blast
  consider (short) "length s < ?n"
    | (miss) "?n \<le> length s" "take ?n s \<noteq> sub"
    | (hit) "?n \<le> length s" "take ?n s = sub"
    by linarith
  then show ?case
  proof cases
    case short
    then have "str_count (drop k s) sub = 0" for k
      using assms by (simp add: str_count_short)
    moreover have "str_count s sub = 0"
      using short assms by (simp add: str_count_short)
    ultimately show ?thesis by simp
  next
    case miss
    then have s: "str_count s sub = str_count (tl s) sub"
      using assms by (simp add: str_count_miss)
    have ne: "s \<noteq> []" using miss assms by auto
    then have len: "length (tl s) < length s" by simp
    have d: "drop (Suc k) s = drop k (tl s)" for k
      by (simp add: drop_Suc)
    have a: "str_count (drop k s) sub \<le> str_count s sub" for k
    proof (cases k)
      case 0 then show ?thesis by simp
    next
      case (Suc j)
      then show ?thesis using IH1 [OF len, of j] s d by simp
    qed
    have b: "str_count s sub \<le> 1 + str_count (drop k s) sub" if "k \<le> ?n" for k
    proof (cases k)
      case 0 then show ?thesis by simp
    next
      case (Suc j)
      then have "j \<le> ?n" using that by simp
      then show ?thesis using IH2 [OF len, of j] s d Suc by simp
    qed
    from a b show ?thesis by blast
  next
    case hit
    then have s: "str_count s sub = 1 + str_count (drop ?n s) sub"
      using assms by (simp add: str_count_hit)
    have npos: "0 < ?n" using assms by simp
    have ne: "s \<noteq> []" using hit assms by auto
    have a: "str_count (drop k s) sub \<le> str_count s sub" for k
    proof -
      consider "k = 0" | "0 < k" "k < ?n" | "?n \<le> k" by linarith
      then show ?thesis
      proof cases
        case 1 then show ?thesis by simp
      next
        case 2
        then have len: "length (drop k s) < length s" using ne by simp
        have "drop (?n - k) (drop k s) = drop ?n s" using 2 by simp
        then show ?thesis using IH2 [OF len, of "?n - k"] s by simp
      next
        case 3
        have len: "length (drop ?n s) < length s" using ne npos by simp
        have "drop (k - ?n) (drop ?n s) = drop k s" using 3 by simp
        then show ?thesis using IH1 [OF len, of "k - ?n"] s by simp
      qed
    qed
    have b: "str_count s sub \<le> 1 + str_count (drop k s) sub" if "k \<le> ?n" for k
    proof (cases "k = 0")
      case True then show ?thesis by simp
    next
      case False
      then have len: "length (drop k s) < length s" using ne by simp
      have "drop (?n - k) (drop k s) = drop ?n s" using that by simp
      then show ?thesis using IH1 [OF len, of "?n - k"] s by simp
    qed
    from a b show ?thesis by blast
  qed
qed

lemma str_count_drop_le: "sub \<noteq> [] \<Longrightarrow> str_count (drop k s) sub \<le> str_count s sub"
  using str_count_drop_bounds by blast

lemma str_count_drop_ge:
  "sub \<noteq> [] \<Longrightarrow> k \<le> length sub \<Longrightarrow> str_count s sub \<le> 1 + str_count (drop k s) sub"
  using str_count_drop_bounds by blast

lemma str_count_self: "sub \<noteq> [] \<Longrightarrow> str_count sub sub = 1"
  by (simp add: str_count_hit str_count_short)

lemma straddles_suffix: "suffix a' a \<Longrightarrow> straddles sub a' b \<Longrightarrow> straddles sub a b"
  unfolding straddles_def using suffix_order.trans by blast

lemma str_count_append_ge:
  assumes "sub \<noteq> []"
  shows "str_count a sub + str_count b sub \<le> str_count (a @ b) sub"
proof (induction a rule: length_induct)
  case (1 a)
  let ?n = "length sub"
  consider (short) "length a < ?n"
    | (miss) "?n \<le> length a" "take ?n a \<noteq> sub"
    | (hit) "?n \<le> length a" "take ?n a = sub"
    by linarith
  then show ?case
  proof cases
    case short
    have "str_count (drop (length a) (a @ b)) sub \<le> str_count (a @ b) sub"
      using assms by (rule str_count_drop_le)
    then show ?thesis using short assms by (simp add: str_count_short)
  next
    case miss
    then have ne: "a \<noteq> []" using assms by auto
    have "str_count (a @ b) sub = str_count (tl (a @ b)) sub"
      using miss assms by (intro str_count_miss) simp_all
    moreover have "str_count a sub = str_count (tl a) sub"
      using miss assms by (simp add: str_count_miss)
    moreover have "str_count (tl a) sub + str_count b sub \<le> str_count (tl a @ b) sub"
      using 1 ne by simp
    ultimately show ?thesis using ne by simp
  next
    case hit
    then have ne: "a \<noteq> []" using assms by auto
    have "str_count (a @ b) sub = 1 + str_count (drop ?n (a @ b)) sub"
      using hit assms by (intro str_count_hit) simp_all
    moreover have "str_count a sub = 1 + str_count (drop ?n a) sub"
      using hit assms by (simp add: str_count_hit)
    moreover have "str_count (drop ?n a) sub + str_count b sub \<le> str_count (drop ?n a @ b) sub"
      using 1 ne assms by simp
    ultimately show ?thesis using hit by simp
  qed
qed

lemma str_count_append_short:
  assumes "sub \<noteq> []" and "length a < length sub" and "\<not> straddles sub a b"
  shows "str_count (a @ b) sub \<le> str_count b sub"
  using assms(2,3)
proof (induction a)
  case Nil
  then show ?case by simp
next
  case (Cons x a)
  let ?n = "length sub"
  let ?s = "(x # a) @ b"
  have ns: "\<not> straddles sub a b"
    using Cons.prems(2) straddles_suffix [of a "x # a" sub b] by (auto simp: suffix_ConsI)
  have IH: "str_count (a @ b) sub \<le> str_count b sub"
    using Cons.IH Cons.prems(1) ns by simp
  consider (short) "length ?s < ?n"
    | (miss) "?n \<le> length ?s" "take ?n ?s \<noteq> sub"
    | (hit) "?n \<le> length ?s" "take ?n ?s = sub"
    by linarith
  then show ?case
  proof cases
    case short
    then show ?thesis using assms(1) by (simp add: str_count_short)
  next
    case miss
    then have "str_count ?s sub = str_count (tl ?s) sub"
      using assms(1) by (intro str_count_miss)
    then show ?thesis using IH by simp
  next
    case hit
    let ?k = "length (x # a)"
    have k: "0 < ?k" "?k < ?n" using Cons.prems(1) by simp_all
    have "take ?k sub = take ?k (take ?n ?s)" using hit by simp
    also have "\<dots> = x # a" using k by (simp add: min_def)
    finally have 1: "suffix (take ?k sub) (x # a)" by simp
    have "drop ?k sub = drop ?k (take ?n ?s)" using hit by simp
    also have "\<dots> = take (?n - ?k) b" by (simp add: drop_take)
    finally have 2: "prefix (drop ?k sub) b" by (simp add: take_is_prefix)
    from k 1 2 have "straddles sub (x # a) b"
      unfolding straddles_def by blast
    with Cons.prems(2) show ?thesis by simp
  qed
qed

lemma str_count_append_le:
  assumes "sub \<noteq> []"
  shows "str_count (a @ b) sub
           \<le> str_count a sub + str_count b sub + (if straddles sub a b then 1 else 0)"
proof (induction a rule: length_induct)
  case (1 a)
  let ?n = "length sub"
  consider (short) "length a < ?n"
    | (miss) "?n \<le> length a" "take ?n a \<noteq> sub"
    | (hit) "?n \<le> length a" "take ?n a = sub"
    by linarith
  then show ?case
  proof cases
    case short
    show ?thesis
    proof (cases "straddles sub a b")
      case True
      have "str_count (a @ b) sub \<le> 1 + str_count (drop (length a) (a @ b)) sub"
        using assms short by (intro str_count_drop_ge) simp_all
      then show ?thesis using True by simp
    next
      case False
      then show ?thesis using str_count_append_short [OF assms short False] by simp
    qed
  next
    case miss
    then have ne: "a \<noteq> []" using assms by auto
    have "str_count (a @ b) sub = str_count (tl (a @ b)) sub"
      using miss assms by (intro str_count_miss) simp_all
    moreover have "str_count a sub = str_count (tl a) sub"
      using miss assms by (simp add: str_count_miss)
    moreover have "str_count (tl a @ b) sub
        \<le> str_count (tl a) sub + str_count b sub + (if straddles sub (tl a) b then 1 else 0)"
      using 1 ne by simp
    moreover have "straddles sub (tl a) b \<Longrightarrow> straddles sub a b"
      using straddles_suffix [of "tl a" a sub b] by (simp add: suffix_tl)
    ultimately show ?thesis using ne by (auto split: if_splits)
  next
    case hit
    then have ne: "a \<noteq> []" using assms by auto
    have "str_count (a @ b) sub = 1 + str_count (drop ?n (a @ b)) sub"
      using hit assms by (intro str_count_hit) simp_all
    moreover have "str_count a sub = 1 + str_count (drop ?n a) sub"
      using hit assms by (simp add: str_count_hit)
    moreover have "str_count (drop ?n a @ b) sub
        \<le> str_count (drop ?n a) sub + str_count b sub
            + (if straddles sub (drop ?n a) b then 1 else 0)"
      using 1 ne assms by simp
    moreover have "straddles sub (drop ?n a) b \<Longrightarrow> straddles sub a b"
      using straddles_suffix [of "drop ?n a" a sub b] by (simp add: suffix_drop)
    ultimately show ?thesis using hit by (auto split: if_splits)
  qed
qed

lemma fillers_nonempty: "g \<in> set fillers \<Longrightarrow> g \<noteq> []"
  by (auto simp: fillers_def)

lemma straddles_pair:
  assumes "straddles [c, d] a b"
  shows "a \<noteq> [] \<and> b \<noteq> [] \<and> last a = c \<and> hd b = d"
proof -
  from assms obtain k where k: "0 < k" "k < 2"
    and s: "suffix (take k [c, d]) a" and p: "prefix (drop k [c, d]) b"
    unfolding straddles_def by auto
  from k have "k = 1" by simp
  with s p have "suffix [c] a" "prefix [d] b" by simp_all
  then show ?thesis by (auto simp: suffix_def prefix_def)
qed

lemma straddles_dots:
  assumes "straddles ''...'' a b"
  shows "a \<noteq> [] \<and> b \<noteq> [] \<and> last a = CHR ''.'' \<and> hd b = CHR ''.''"
proof -
  from assms obtain k where k: "0 < k" "k < 3"
    and s: "suffix (take k ''...'') a" and p: "prefix (drop k ''...'') b"
    unfolding straddles_def by auto
  from k consider "k = 1" | "k = 2" by linarith
  then show ?thesis
  proof cases
    case 1
    with s p have "suffix ''.'' a" "prefix ''..'' b" by simp_all
    then show ?thesis by (auto simp: suffix_def prefix_def)
  next
    case 2
    with s p have "suffix ''..'' a" "prefix ''.'' b"
      by (simp_all add: numeral_2_eq_2)
    then show ?thesis by (auto simp: suffix_def prefix_def)
  qed
qed

lemma straddles_fillers_le_one:
  "(\<Sum>g\<leftarrow>fillers. if straddles g a b then 1 else 0) \<le> (1::nat)"
  using straddles_pair [of "CHR ''u''" "CHR ''h''" a b]
    straddles_pair [of "CHR ''u''" "CHR ''m''" a b]
    straddles_pair [of "CHR ''e''" "CHR ''r''" a b]
    straddles_pair [of "CHR ''a''" "CHR ''h''" a b]
    straddles_dots [of a b]
  by (auto simp: fillers_def)

lemma utterance_fillers_insert:
  assumes "f \<in> set fillers"
  shows "utterance_fillers (a @ b) \<le> utterance_fillers (a @ f @ b)"
proof -
  let ?ind = "\<lambda>g. if straddles g a b then 1 else (0::nat)"
  have up: "str_count (a @ b) g \<le> str_count a g + str_count b g + ?ind g"
    if "g \<in> set fillers" for g
    using str_count_append_le [OF fillers_nonempty [OF that]] .
  have down: "str_count a g + str_count b g + str_count f g \<le> str_count (a @ f @ b) g"
    if "g \<in> set fillers" for g
  proof -
    have g: "g \<noteq> []" using that by (rule fillers_nonempty)
    have "str_count f g + str_count b g \<le> str_count (f @ b) g"
      using g by (rule str_count_append_ge)
    moreover have "str_count a g + str_count (f @ b) g \<le> str_count (a @ f @ b) g"
      using g by (rule str_count_append_ge)
    ultimately show ?thesis by simp
  qed
  have "str_count f f \<in> set (map (str_count f) fillers)"
    using assms by simp
  then have "str_count f f \<le> sum_list (map (str_count f) fillers)"
    by (simp add: member_le_sum_list)
  then have self: "1 \<le> (\<Sum>g\<leftarrow>fillers. str_count f g)"
    using str_count_self [OF fillers_nonempty [OF assms]] by simp
  have "utterance_fillers (a @ b)
          \<le> (\<Sum>g\<leftarrow>fillers. str_count a g + str_count b g + ?ind g)"
    unfolding utterance_fillers_def using up by (intro sum_list_mono) simp
  also have "\<dots> = (\<Sum>g\<leftarrow>fillers. str_count a g + str_count b g) + (\<Sum>g\<leftarrow>fillers. ?ind g)"
    by (simp add: sum_list_addf)
  also have "\<dots> \<le> (\<Sum>g\<leftarrow>fillers. str_count a g + str_count b g) + (\<Sum>g\<leftarrow>fillers. str_count f g)"
    using straddles_fillers_le_one [of a b] self by simp
  also have "\<dots> = (\<Sum>g\<leftarrow>fillers. str_count a g + str_count b g + str_count f g)"
    by (simp add: sum_list_addf)
  also have "\<dots> \<le> utterance_fillers (a @ f @ b)"
    unfolding utterance_fillers_def using down by (intro sum_list_mono) simp
  finally show ?thesis .
qed

lemma hesitation_step_entry: "hesitation_step n e = n + entry_hesitations e"
  by (simp add: hesitation_step_def entry_hesitations_def utterance_fillers_def)

lemma foldl_hesitation_step:
  "foldl hesitation_step n t = n + sum_list (map entry_hesitations t)"
  by (induction t arbitrary: n) (simp_all add: hesitation_step_entry)

lemma count_hesitations_entries:
  "count_hesitations t = sum_list (map entry_hesitations t)"
  by (simp add: count_hesitations_def foldl_hesitation_step)

lemma sum_entry_hesitations_filter:
  "sum_list (map entry_hesitations t) =
     (\<Sum>e\<leftarrow>filter (\<lambda>e. speaker e = ''controller'') t.
        \<Sum>f\<leftarrow>fillers. str_count (str_lower (text e)) f)"
  by (induction t) (simp_all add: entry_hesitations_def utterance_fillers_def)

lemma count_hesitations_update:
  assumes "i < length t" and "entry_hesitations (t ! i) \<le> entry_hesitations e"
  shows "count_hesitations t \<le> count_hesitations (t[i := e])"
proof -
  have t: "t = take i t @ t ! i # drop (Suc i) t"
    using assms(1) by (rule id_take_nth_drop)
  have u: "t[i := e] = take i t @ e # drop (Suc i) t"
    using assms(1) by (rule upd_conv_take_nth_drop)
  have "count_hesitations t =
      sum_list (map entry_hesitations (take i t)) + entry_hesitations (t ! i)
      + sum_list (map entry_hesitations (drop (Suc i) t))"
    by (subst t) (simp add: count_hesitations_entries)
  moreover have "count_hesitations (t[i := e]) =
      sum_list (map entry_hesitations (take i t)) + entry_hesitations e
      + sum_list (map entry_hesitations (drop (Suc i) t))"
    by (simp add: u count_hesitations_entries)
  ultimately show ?thesis using assms(2) by simp
qed

lemma entry_hesitations_insert:
  assumes "str_lower f \<in> set fillers" and "text e = a @ b"
  shows "entry_hesitations e \<le> entry_hesitations (e\<lparr>text := a @ f @ b\<rparr>)"
  using utterance_fillers_insert [OF assms(1), of "str_lower a" "str_lower b"] assms(2)
  by (simp add: entry_hesitations_def str_lower_def)

lemma count_hesitations_cong:
  assumes "length t' = length t"
    and "\<And>i. i < length t \<Longrightarrow> entry_hesitations (t' ! i) = entry_hesitations (t ! i)"
  shows "count_hesitations t' = count_hesitations t"
proof -
  have "map entry_hesitations t' = map entry_hesitations t"
    using assms by (intro nth_equalityI) simp_all
  then show ?thesis by (simp add: count_hesitations_entries)
qed

text \<open>
  Claim C5. The hesitation count is the sum, over the controller utterances only, of the
  occurrences (as \<^verbatim>\<open>str.count\<close> counts them) of each filler of the fixed set in the
  lower-cased text, every occurrence counted. Inserting a filler token, in any letter
  case and at any position, into a controller utterance never lowers the count, and
  the count does not depend on the text of pilot utterances.
\<close>

theorem count_hesitations_spec:
  "count_hesitations t =
     (\<Sum>e\<leftarrow>filter (\<lambda>e. speaker e = ''controller'') t.
        \<Sum>f\<leftarrow>fillers. str_count (str_lower (text e)) f)
   \<and> (i < length t \<and> speaker (t ! i) = ''controller'' \<and> text (t ! i) = a @ b
        \<and> str_lower f \<in> set fillers
      \<longrightarrow> count_hesitations t \<le> count_hesitations (t[i := (t ! i)\<lparr>text := a @ f @ b\<rparr>]))
   \<and> (length t' = length t
        \<and> (\<forall>j < length t. speaker (t' ! j) = speaker (t ! j)
               \<and> (speaker (t ! j) \<noteq> ''pilot'' \<longrightarrow> text (t' ! j) = text (t ! j)))
      \<longrightarrow> count_hesitations t' = count_hesitations t)"
proof (intro conjI impI)
  show "count_hesitations t =
     (\<Sum>e\<leftarrow>filter (\<lambda>e. speaker e = ''controller'') t.
        \<Sum>f\<leftarrow>fillers. str_count (str_lower (text e)) f)"
    by (simp add: count_hesitations_entries sum_entry_hesitations_filter)
next
  assume h: "i < length t \<and> speaker (t ! i) = ''controller'' \<and> text (t ! i) = a @ b
        \<and> str_lower f \<in> set fillers"
  then have "entry_hesitations (t ! i) \<le> entry_hesitations ((t ! i)\<lparr>text := a @ f @ b\<rparr>)"
    by (intro entry_hesitations_insert) simp_all
  with h show "count_hesitations t \<le> count_hesitations (t[i := (t ! i)\<lparr>text := a @ f @ b\<rparr>])"
    by (intro count_hesitations_update) simp_all
next
  assume h: "length t' = length t
        \<and> (\<forall>j < length t. speaker (t' ! j) = speaker (t ! j)
               \<and> (speaker (t ! j) \<noteq> ''pilot'' \<longrightarrow> text (t' ! j) = text (t ! j)))"
  show "count_hesitations t' = count_hesitations t"
  proof (rule count_hesitations_cong)
    show "length t' = length t" using h by simp
  next
    fix j assume "j < length t"
    with h have "speaker (t' ! j) = speaker (t ! j)"
      and "speaker (t ! j) \<noteq> ''pilot'' \<longrightarrow> text (t' ! j) = text (t ! j)" by simp_all
    then show "entry_hesitations (t' ! j) = entry_hesitations (t ! j)"
      by (auto simp: entry_hesitations_def)
  qed
qed

lemma str_count_Cons_eval:
  "str_count (c # s) (d # sub) =
     (if length s < length sub then 0
      else if c = d \<and> take (length sub) s = sub then 1 + str_count (drop (length sub) s) (d # sub)
      else str_count s (d # sub))"
  by (subst str_count.simps) auto

lemma str_count_Nil_eval: "str_count [] (d # sub) = 0"
  by (subst str_count.simps) auto

theorem count_hesitations_spec_witness:
  "count_hesitations hesitation_example = 4
   \<and> count_hesitations hesitation_example_more = 5
   \<and> count_hesitations hesitation_example \<le> count_hesitations hesitation_example_more
   \<and> count_hesitations hesitation_example_pilot = count_hesitations hesitation_example"
proof -
  have v: "count_hesitations hesitation_example = 4"
    "count_hesitations hesitation_example_more = 5"
    by code_simp+
  have h1: "0 < length hesitation_example \<and> speaker (hesitation_example ! 0) = ''controller''
      \<and> text (hesitation_example ! 0) = ''Uh, '' @ ''uh... um''
      \<and> str_lower ''ER'' \<in> set fillers"
    by code_simp
  have h2: "length hesitation_example_pilot = length hesitation_example
      \<and> (\<forall>j < length hesitation_example.
            speaker (hesitation_example_pilot ! j) = speaker (hesitation_example ! j)
          \<and> (speaker (hesitation_example ! j) \<noteq> ''pilot''
               \<longrightarrow> text (hesitation_example_pilot ! j) = text (hesitation_example ! j)))"
    by (simp add: hesitation_example_def hesitation_example_pilot_def less_Suc_eq)
  from count_hesitations_spec [of hesitation_example 0 "''Uh, ''" "''uh... um''" "''ER''"
      hesitation_example_pilot] h1 h2 v
  show ?thesis by (simp add: hesitation_example_more_def)
qed

section \<open>Sampling: proofs\<close>

lemma select_samples_short:
  "0 < n \<Longrightarrow> length t < n \<Longrightarrow> select_samples t n = Inl (ValueError ''slice step cannot be zero'')"
  by (simp add: select_samples_def)

lemma slice_step_take:
  assumes "0 < k" and "n * k \<le> length xs"
  shows "take n (slice_step xs k) = map (\<lambda>j. xs ! (j * k)) [0..<n]"
proof -
  have "n \<le> (length xs + k - 1) div k"
  proof -
    have "n = (n * k) div k" using assms(1) by simp
    also have "\<dots> \<le> (length xs + k - 1) div k"
      using assms by (intro div_le_mono) simp
    finally show ?thesis .
  qed
  then show ?thesis
    by (simp add: slice_step_def take_map min_def)
qed

lemma select_samples_long:
  assumes "0 < n" and "n \<le> length t"
  shows "select_samples t n = Inr (map (\<lambda>i. t ! i) (sample_indices (length t) n))"
proof -
  let ?k = "length t div n"
  have k: "0 < ?k" using assms by (simp add: div_greater_zero_iff)
  have "n * ?k \<le> length t" by simp
  then have "take n (slice_step t ?k) = map (\<lambda>j. t ! (j * ?k)) [0..<n]"
    using k by (rule slice_step_take [rotated])
  then show ?thesis using assms k
    by (simp add: select_samples_def sample_indices_def Let_def comp_def)
qed

lemma sample_indices_in_range:
  assumes "0 < n" and "n \<le> len" and "i \<in> set (sample_indices len n)"
  shows "i < len"
proof -
  from assms(3) obtain j where j: "j < n" "i = j * (len div n)"
    by (auto simp: sample_indices_def)
  have "0 < len div n" using assms by (simp add: div_greater_zero_iff)
  then have "j * (len div n) < n * (len div n)" using j(1) by simp
  also have "\<dots> \<le> len" by simp
  finally show ?thesis using j(2) by simp
qed

text \<open>
  Claim C7. For a transcript of at least ten entries the sample is the ten entries at
  stride \<open>len(transcript) // 10\<close> (lemma \<open>select_samples_long\<close>). The claim that the
  construction never faults for a transcript of any length fails: for fewer than ten
  entries the stride is 0 and the slice raises \<^verbatim>\<open>ValueError\<close> (lemma
  \<open>select_samples_short\<close>), here on a transcript of three entries, and
  \<^verbatim>\<open>process_shift\<close> fails with it on the four-entry transcript of the specification's
  own scenario.
\<close>

theorem format_samples_short_transcript_fails:
  "select_samples short_transcript 10 = Inl (ValueError ''slice step cannot be zero'')
   \<and> format_samples str_of short_transcript 10 = Inl (ValueError ''slice step cannot be zero'')
   \<and> fst (process_shift short_env ''shift_20240115_001'' initial_state)
       = Failed (ValueError ''slice step cannot be zero'')"
proof -
  have a: "select_samples short_transcript 10 = Inl (ValueError ''slice step cannot be zero'')"
    by (simp add: select_samples_def short_transcript_def)
  have b: "format_samples str_of short_transcript 10
      = Inl (ValueError ''slice step cannot be zero'')"
    by (simp add: format_samples_def and_then_def a)
  have c: "fst (process_shift short_env ''shift_20240115_001'' initial_state)
       = Failed (ValueError ''slice step cannot be zero'')"
    by code_simp
  from a b c show ?thesis by simp
qed

section \<open>The endpoint: proofs\<close>

lemma serve_all:
  "serve sids bt =
     (map (\<lambda>sid. [(''status'', JStr ''processing''), (''shift_id'', JStr sid)]) sids, bt @ sids)"
  by (induction sids arbitrary: bt) (simp_all add: analyze_shift_def)

text \<open>
  Claim C1, as amended. Whatever runs are in flight, \<^verbatim>\<open>analyze_shift\<close> adds one run of
  \<^verbatim>\<open>process_shift\<close> for the shift id and answers \<^verbatim>\<open>processing\<close>; no request is rejected.
  After a sequence of requests the runs in flight are the earlier ones followed by one
  run per request, so a shift id requested \<open>n\<close> times has \<open>n\<close> more runs in flight.
\<close>

theorem analyze_shift_always_processing:
  "fst (analyze_shift shift_id background_tasks)
     = [(''status'', JStr ''processing''), (''shift_id'', JStr shift_id)]
   \<and> snd (analyze_shift shift_id background_tasks) = background_tasks @ [shift_id]
   \<and> fst (serve shift_ids background_tasks)
     = map (\<lambda>sid. [(''status'', JStr ''processing''), (''shift_id'', JStr sid)]) shift_ids
   \<and> snd (serve shift_ids background_tasks) = background_tasks @ shift_ids
   \<and> count_list (snd (serve shift_ids background_tasks)) shift_id
     = count_list background_tasks shift_id + count_list shift_ids shift_id"
  by (simp add: serve_all analyze_shift_def)

text \<open>
  Claim C1 as stated fails: a second request for a shift whose run is in flight is
  answered \<^verbatim>\<open>processing\<close>, not \<^verbatim>\<open>rejected\<close>, and two runs for that shift are in flight.
\<close>

theorem analyze_shift_guard_counterexample:
  "''shift_1'' \<in> set (snd (analyze_shift ''shift_1'' []))
   \<and> fst (analyze_shift ''shift_1'' (snd (analyze_shift ''shift_1'' [])))
       = [(''status'', JStr ''processing''), (''shift_id'', JStr ''shift_1'')]
   \<and> map_of (fst (analyze_shift ''shift_1'' (snd (analyze_shift ''shift_1'' [])))) ''status''
       \<noteq> Some (JStr ''rejected'')
   \<and> snd (analyze_shift ''shift_1'' (snd (analyze_shift ''shift_1'' [])))
       = [''shift_1'', ''shift_1'']"
  by (simp add: analyze_shift_def)

section \<open>The agents: proofs\<close>

lemmas agent_defs = FatigueAgent_analyze_def SafetyAgent_analyze_def SummarizerAgent_analyze_def
  call_model_def record_event_def Let_def

lemma FatigueAgent_frame:
  "FatigueAgent_analyze env t m st = (r, st') \<Longrightarrow>
     database st' = database st \<and> s3_reports st' = s3_reports st \<and> error_log st' = error_log st"
  by (auto simp: agent_defs split: sum.splits prod.splits)

lemma SafetyAgent_frame:
  "SafetyAgent_analyze env t m st = (r, st') \<Longrightarrow>
     database st' = database st \<and> s3_reports st' = s3_reports st \<and> error_log st' = error_log st"
  by (auto simp: agent_defs split: sum.splits prod.splits)

lemma SummarizerAgent_frame:
  "SummarizerAgent_analyze env t m f s st = (r, st') \<Longrightarrow>
     database st' = database st \<and> s3_reports st' = s3_reports st \<and> error_log st' = error_log st"
  by (auto simp: agent_defs split: sum.splits prod.splits)

lemma FatigueAgent_trace:
  "FatigueAgent_analyze env t m st = (r, st') \<Longrightarrow>
     trace st' = trace st @ Invoked Fatigue [] # (case r of Inl e \<Rightarrow> [] | Inr f \<Rightarrow> [Returned Fatigue f])"
  by (auto simp: agent_defs split: sum.splits prod.splits)

lemma SafetyAgent_trace:
  "SafetyAgent_analyze env t m st = (r, st') \<Longrightarrow>
     trace st' = trace st @ Invoked Safety [] # (case r of Inl e \<Rightarrow> [] | Inr f \<Rightarrow> [Returned Safety f])"
  by (auto simp: agent_defs split: sum.splits prod.splits)

lemma SummarizerAgent_trace:
  "SummarizerAgent_analyze env t m f s st = (r, st') \<Longrightarrow>
     trace st' = trace st @ Invoked Summarizer [f, s]
        # (case r of Inl e \<Rightarrow> [] | Inr x \<Rightarrow> [Returned Summarizer x])"
  by (auto simp: agent_defs split: sum.splits prod.splits)

lemma FatigueAgent_single_call:
  "single_call_outcome env st (FatigueAgent_analyze env t m st)"
  by (auto simp: single_call_outcome_def agent_defs split: sum.splits prod.splits)

lemma SafetyAgent_single_call:
  "single_call_outcome env st (SafetyAgent_analyze env t m st)"
  by (auto simp: single_call_outcome_def agent_defs split: sum.splits prod.splits)

lemma SummarizerAgent_single_call:
  "single_call_outcome env st (SummarizerAgent_analyze env t m f s st)"
  by (auto simp: single_call_outcome_def agent_defs split: sum.splits prod.splits)

text \<open>
  Claim C6, as amended. An agent invocation calls the backend at most once. If it calls
  it, an exception of that single call (a timeout among them) or of the extraction of
  its reply is the outcome of the invocation at once: nothing is retried and no
  clarifying instruction is sent.
\<close>

theorem agents_call_backend_once:
  "single_call_outcome env st (FatigueAgent_analyze env transcript metadata st)
   \<and> single_call_outcome env st (SafetyAgent_analyze env transcript metadata st)
   \<and> single_call_outcome env st
        (SummarizerAgent_analyze env transcript metadata fatigue_result safety_result st)"
  by (simp add: FatigueAgent_single_call SafetyAgent_single_call SummarizerAgent_single_call)

theorem agents_call_backend_once_witness:
  "fst (FatigueAgent_analyze timeout_env long_transcript sample_metadata initial_state)
     = Inl APITimeoutError
   \<and> length (llm_calls (snd (FatigueAgent_analyze timeout_env long_transcript sample_metadata
        initial_state))) = 1"
proof -
  have e: "fst (FatigueAgent_analyze timeout_env long_transcript sample_metadata initial_state)
     = Inl APITimeoutError"
    "length (llm_calls (snd (FatigueAgent_analyze timeout_env long_transcript sample_metadata
        initial_state))) = 1"
    by code_simp+
  have "single_call_outcome timeout_env initial_state
      (FatigueAgent_analyze timeout_env long_transcript sample_metadata initial_state)"
    using agents_call_backend_once [of timeout_env initial_state long_transcript sample_metadata]
    by simp
  with e show ?thesis by simp
qed

text \<open>
  Claim C6 as stated fails: with a backend whose first call times out and whose second
  call would answer, the Fatigue agent fails with the timeout after one call, and
  \<^verbatim>\<open>process_shift\<close> ends in \<open>Failed\<close>.
\<close>

theorem retry_counterexample:
  "fst (FatigueAgent_analyze timeout_env long_transcript sample_metadata initial_state)
     = Inl APITimeoutError
   \<and> length (llm_calls (snd (FatigueAgent_analyze timeout_env long_transcript sample_metadata
        initial_state))) = 1
   \<and> messages_create timeout_env 1
        (hd (llm_calls (snd (FatigueAgent_analyze timeout_env long_transcript sample_metadata
           initial_state)))) = Inr ''{...}''
   \<and> fst (process_shift timeout_env ''shift_20240115_001'' initial_state)
     = Failed APITimeoutError"
  by code_simp

lemma dict_get_set: "dict_get (dict_set d k v) k = Inr v"
  by (simp add: dict_get_def dict_set_def update_conv')

lemma dict_get_set_other: "k' \<noteq> k \<Longrightarrow> dict_get (dict_set d k v) k' = dict_get d k'"
  by (simp add: dict_get_def dict_set_def update_conv')

text \<open>
  Claim C8, as amended. Every result the Fatigue agent returns carries under
  \<^verbatim>\<open>'metrics'\<close> the block \<^verbatim>\<open>avg_response_time\<close>, \<^verbatim>\<open>max_response_time\<close>,
  \<^verbatim>\<open>hesitation_count\<close>, \<^verbatim>\<open>hours_on_duty\<close>, computed from the transcript and the
  metadata and not from the model's reply; and once the reply has been extracted the
  agent returns the extracted dictionary with that block set: the attachment has no
  failing branch. The minimum response time is not part of the block.
\<close>

theorem fatigue_result_metrics:
  "(fst (FatigueAgent_analyze env transcript metadata st) = Inr result \<longrightarrow>
      (\<exists>hours_on_duty. get_hours_on_duty env metadata = Inr hours_on_duty
         \<and> dict_get result ''metrics'' =
             Inr (JDict [(''avg_response_time'', JNum (avg (calculate_response_times transcript))),
                         (''max_response_time'', JNum (max_time (calculate_response_times transcript))),
                         (''hesitation_count'', JNum (of_nat (count_hesitations transcript))),
                         (''hours_on_duty'', hours_on_duty)])))
   \<and> (get_hours_on_duty env metadata = Inr hours
        \<and> fatigue_prompt env transcript metadata (calculate_response_times transcript)
             (count_hesitations transcript) hours = Inr p
        \<and> messages_create env (length (llm_calls st)) (Request model_name 2000 p) = Inr response
        \<and> extract_json env response = Inr extracted
      \<longrightarrow> fst (FatigueAgent_analyze env transcript metadata st)
            = Inr (dict_set extracted ''metrics''
                    (fatigue_metrics (calculate_response_times transcript)
                       (count_hesitations transcript) hours)))"
  by (auto simp: agent_defs dict_get_set fatigue_metrics_def split: sum.splits prod.splits)

text \<open>
  Claim C8 as stated fails: the block of a returned result has no minimum response time
  (its fourth key is the hours on duty).
\<close>

theorem fatigue_result_metrics_counterexample:
  "map_sum id metric_keys
     (fst (FatigueAgent_analyze sample_env long_transcript sample_metadata initial_state))
   = Inr [''avg_response_time'', ''max_response_time'', ''hesitation_count'', ''hours_on_duty'']"
  by code_simp

theorem fatigue_result_metrics_witness:
  "fst (FatigueAgent_analyze sample_env long_transcript sample_metadata initial_state)
     = Inr (dict_set sample_result ''metrics'' (fatigue_metrics
              (calculate_response_times long_transcript) (count_hesitations long_transcript) (JNum 8)))
   \<and> dict_get (dict_set sample_result ''metrics'' (fatigue_metrics
              (calculate_response_times long_transcript) (count_hesitations long_transcript) (JNum 8)))
         ''metrics''
       = Inr (JDict [(''avg_response_time'', JNum 1), (''max_response_time'', JNum 1),
                     (''hesitation_count'', JNum 12), (''hours_on_duty'', JNum 8)])"
proof -
  let ?r = "dict_set sample_result ''metrics'' (fatigue_metrics
              (calculate_response_times long_transcript) (count_hesitations long_transcript) (JNum 8))"
  have v: "avg (calculate_response_times long_transcript) = 1"
    "max_time (calculate_response_times long_transcript) = 1"
    "count_hesitations long_transcript = 12"
    by code_simp+
  have h1: "fst (FatigueAgent_analyze sample_env long_transcript sample_metadata initial_state)
      = Inr ?r"
    by code_simp
  have h2: "get_hours_on_duty sample_env sample_metadata = Inr (JNum 8)
      \<and> fatigue_prompt sample_env long_transcript sample_metadata
           (calculate_response_times long_transcript) (count_hesitations long_transcript) (JNum 8)
         = Inr sample_fatigue_prompt
      \<and> messages_create sample_env (length (llm_calls initial_state))
           (Request model_name 2000 sample_fatigue_prompt) = Inr ''{...}''
      \<and> extract_json sample_env ''{...}'' = Inr sample_result"
    by code_simp
  from fatigue_result_metrics [of sample_env long_transcript sample_metadata initial_state ?r
      "JNum 8" sample_fatigue_prompt "''{...}''" sample_result] h1 h2 v
  show ?thesis by simp
qed

section \<open>All-or-nothing persistence: proofs\<close>

lemma process_shift_try_stages:
  "process_shift_try env sid st =
     (case run_stages env sid st of
        (Inl e, st') \<Rightarrow> (Inl e, st')
      | (Inr (f, s, m), st3) \<Rightarrow>
          (case save_to_database env sid (shift_report sid f s m) st3 of
             (Inl e, st4) \<Rightarrow> (Inl e, st4)
           | (Inr u, st4) \<Rightarrow> upload_report_to_s3 env sid m st4))"
  by (simp add: process_shift_try_def run_stages_def split: sum.splits prod.splits)

lemma run_stages_frame:
  assumes "run_stages env sid st = (r, st')"
  shows "database st' = database st \<and> s3_reports st' = s3_reports st
         \<and> error_log st' = error_log st"
  using assms unfolding run_stages_def
  by (auto split: sum.splits prod.splits
      dest!: FatigueAgent_frame SafetyAgent_frame SummarizerAgent_frame)

lemma run_stages_trace:
  assumes "run_stages env sid st = (r, st')"
  shows "\<exists>new. trace st' = trace st @ new \<and> summarizer_after_both new
           \<and> (\<forall>f s m. r = Inr (f, s, m) \<longrightarrow>
                 new = [Invoked Fatigue [], Returned Fatigue f, Invoked Safety [],
                        Returned Safety s, Invoked Summarizer [f, s], Returned Summarizer m])"
  using assms unfolding run_stages_def summarizer_after_both_def
  by (auto split: sum.splits prod.splits
      dest!: FatigueAgent_trace SafetyAgent_trace SummarizerAgent_trace
      simp: Cons_eq_append_conv)

lemma process_shift_state:
  "process_shift env sid st =
     (case run_stages env sid st of
        (Inl e, st') \<Rightarrow> (Failed e, log_error sid e st')
      | (Inr (f, s, m), st3) \<Rightarrow>
          (case save_fault env (shift_report sid f s m) of
             Some e \<Rightarrow> (Failed e, log_error sid e st3)
           | None \<Rightarrow>
              (case upload_fault env sid m of
                 Some e \<Rightarrow> (Failed e,
                     log_error sid e (st3\<lparr>database := (database st3)(sid \<mapsto> shift_report sid f s m)\<rparr>))
               | None \<Rightarrow> (Complete,
                     st3\<lparr>database := (database st3)(sid \<mapsto> shift_report sid f s m),
                         s3_reports := (s3_reports st3)(sid \<mapsto> m)\<rparr>))))"
  by (simp add: process_shift_def process_shift_try_stages save_to_database_def
      upload_report_to_s3_def split: sum.splits prod.splits option.splits)

text \<open>The stages fail exactly when not all of them succeed, and a missing metadata key,
  an exception of the backend call (a timeout among them) and a failed extraction each
  make the Fatigue stage fail.\<close>

lemma run_stages_succeeds_iff:
  "run_stages env sid st = (Inr (f, s, m), st3) \<longleftrightarrow>
     (\<exists>audio_data metadata transcript st1 st2.
        download_from_s3 env sid = Inr audio_data
      \<and> get_shift_metadata env sid = Inr metadata
      \<and> transcribe env audio_data = Inr transcript
      \<and> FatigueAgent_analyze env transcript metadata st = (Inr f, st1)
      \<and> SafetyAgent_analyze env transcript metadata st1 = (Inr s, st2)
      \<and> SummarizerAgent_analyze env transcript metadata f s st2 = (Inr m, st3))"
  unfolding run_stages_def
  by (auto split: sum.splits prod.splits)

lemma run_stages_fails_iff:
  "(\<exists>e st1. run_stages env sid st = (Inl e, st1)) \<longleftrightarrow>
     \<not> (\<exists>audio_data metadata transcript f st1 s st2 m st3.
        download_from_s3 env sid = Inr audio_data
      \<and> get_shift_metadata env sid = Inr metadata
      \<and> transcribe env audio_data = Inr transcript
      \<and> FatigueAgent_analyze env transcript metadata st = (Inr f, st1)
      \<and> SafetyAgent_analyze env transcript metadata st1 = (Inr s, st2)
      \<and> SummarizerAgent_analyze env transcript metadata f s st2 = (Inr m, st3))"
proof -
  obtain r st' where rs: "run_stages env sid st = (r, st')"
    by (cases "run_stages env sid st")
  show ?thesis
  proof (cases r)
    case (Inl e)
    with rs show ?thesis using run_stages_succeeds_iff [of env sid st] by auto
  next
    case (Inr res)
    obtain f s m where "res = (f, s, m)" by (cases res)
    with rs Inr have "run_stages env sid st = (Inr (f, s, m), st')" by simp
    then show ?thesis using run_stages_succeeds_iff [of env sid st f s m st'] by auto
  qed
qed

lemma FatigueAgent_missing_metadata:
  assumes "get_hours_on_duty env metadata = Inr h"
    and "map_of metadata ''start_time'' = None"
  shows "fst (FatigueAgent_analyze env transcript metadata st) = Inl (KeyError ''start_time'')"
  using assms
  by (simp add: FatigueAgent_analyze_def fatigue_prompt_def and_then_def dict_get_def Let_def)

lemma FatigueAgent_backend_failure:
  assumes "get_hours_on_duty env metadata = Inr h"
    and "fatigue_prompt env transcript metadata (calculate_response_times transcript)
           (count_hesitations transcript) h = Inr p"
    and "messages_create env (length (llm_calls st)) (Request model_name 2000 p) = Inl e"
  shows "fst (FatigueAgent_analyze env transcript metadata st) = Inl e"
  using assms
  by (simp add: FatigueAgent_analyze_def call_model_def record_event_def Let_def)

lemma FatigueAgent_extraction_failure:
  assumes "get_hours_on_duty env metadata = Inr h"
    and "fatigue_prompt env transcript metadata (calculate_response_times transcript)
           (count_hesitations transcript) h = Inr p"
    and "messages_create env (length (llm_calls st)) (Request model_name 2000 p) = Inr reply"
    and "extract_json env reply = Inl e"
  shows "fst (FatigueAgent_analyze env transcript metadata st) = Inl e"
  using assms
  by (simp add: FatigueAgent_analyze_def call_model_def record_event_def Let_def)

text \<open>When the upload that follows the write raises, the run is \<open>Failed\<close> although the
  report is stored; the stored report is still the complete one.\<close>

lemma process_shift_upload_failure:
  assumes "run_stages env sid st = (Inr (f, s, m), st3)"
    and "save_fault env (shift_report sid f s m) = None"
    and "upload_fault env sid m = Some e"
  shows "fst (process_shift env sid st) = Failed e
         \<and> get_report sid (snd (process_shift env sid st)) = Some (shift_report sid f s m)"
  using assms by (simp add: process_shift_state log_error_def get_report_def)

text \<open>
  Claim C2. If a stage of \<^verbatim>\<open>process_shift\<close> before the write raises (download, metadata,
  transcription, or one of the three agents, whose exceptions include a backend
  timeout, a failed extraction and a missing metadata key), the run ends in \<open>Failed\<close>
  with that exception logged, and the report store and the uploaded reports are
  unchanged. Whenever the stored report of the shift differs after the run, all three
  agents have returned a result and the stored report is the one assembled from these
  three; the reports of the other shifts are never touched.
\<close>

theorem process_shift_all_or_nothing:
  "(run_stages env shift_id st = (Inl e, st1) \<longrightarrow>
        fst (process_shift env shift_id st) = Failed e
      \<and> database (snd (process_shift env shift_id st)) = database st
      \<and> s3_reports (snd (process_shift env shift_id st)) = s3_reports st
      \<and> (shift_id, e) \<in> set (error_log (snd (process_shift env shift_id st))))
   \<and> (get_report shift_id (snd (process_shift env shift_id st)) \<noteq> get_report shift_id st \<longrightarrow>
        (\<exists>fatigue safety summary st3.
            run_stages env shift_id st = (Inr (fatigue, safety, summary), st3)
          \<and> Returned Fatigue fatigue \<in> set (trace st3)
          \<and> Returned Safety safety \<in> set (trace st3)
          \<and> Returned Summarizer summary \<in> set (trace st3)
          \<and> get_report shift_id (snd (process_shift env shift_id st))
              = Some (shift_report shift_id fatigue safety summary)))
   \<and> (k \<noteq> shift_id \<longrightarrow> get_report k (snd (process_shift env shift_id st)) = get_report k st)"
proof -
  obtain r st' where rs: "run_stages env shift_id st = (r, st')"
    by (cases "run_stages env shift_id st")
  note fr = run_stages_frame [OF rs]
  from run_stages_trace [OF rs] obtain new where new: "trace st' = trace st @ new"
    and full: "\<And>f s m. r = Inr (f, s, m) \<Longrightarrow>
                 new = [Invoked Fatigue [], Returned Fatigue f, Invoked Safety [],
                        Returned Safety s, Invoked Summarizer [f, s], Returned Summarizer m]"
    by blast
  show ?thesis
  proof (cases r)
    case (Inl x)
    with rs fr show ?thesis
      by (auto simp: process_shift_state log_error_def get_report_def)
  next
    case (Inr res)
    obtain f s m where res: "res = (f, s, m)" by (cases res)
    have tr: "Returned Fatigue f \<in> set (trace st')" "Returned Safety s \<in> set (trace st')"
      "Returned Summarizer m \<in> set (trace st')"
      using full [of f s m] Inr res new by simp_all
    with rs fr Inr res show ?thesis
      by (auto simp: process_shift_state log_error_def get_report_def split: option.splits)
  qed
qed

theorem process_shift_all_or_nothing_witness:
  "fst (process_shift timeout_env ''shift_20240115_001'' initial_state) = Failed APITimeoutError
   \<and> database (snd (process_shift timeout_env ''shift_20240115_001'' initial_state))
       = database initial_state
   \<and> (\<exists>fatigue safety summary.
         get_report ''shift_20240115_001''
           (snd (process_shift sample_env ''shift_20240115_001'' initial_state))
         = Some (shift_report ''shift_20240115_001'' fatigue safety summary))
   \<and> get_report ''shift_20240115_002''
        (snd (process_shift sample_env ''shift_20240115_001'' initial_state)) = None"
proof -
  let ?id = "''shift_20240115_001''"
  have "fst (run_stages timeout_env ?id initial_state) = Inl APITimeoutError"
    by code_simp
  then have h1: "run_stages timeout_env ?id initial_state
      = (Inl APITimeoutError, snd (run_stages timeout_env ?id initial_state))"
    by (simp add: prod_eq_iff)
  have h2: "get_report ?id (snd (process_shift sample_env ?id initial_state))
      \<noteq> get_report ?id initial_state"
    by code_simp
  have h3: "''shift_20240115_002'' \<noteq> ?id" by simp
  have i: "get_report ''shift_20240115_002'' initial_state = None"
    by (simp add: get_report_def initial_state_def)
  from process_shift_all_or_nothing [of timeout_env ?id initial_state APITimeoutError
      "snd (run_stages timeout_env ?id initial_state)" "''shift_20240115_002''"] h1
  have a: "fst (process_shift timeout_env ?id initial_state) = Failed APITimeoutError
      \<and> database (snd (process_shift timeout_env ?id initial_state)) = database initial_state"
    by blast
  from process_shift_all_or_nothing [of sample_env ?id initial_state APITimeoutError
      initial_state "''shift_20240115_002''"] h2 h3 i
  have b: "(\<exists>fatigue safety summary.
         get_report ?id (snd (process_shift sample_env ?id initial_state))
         = Some (shift_report ?id fatigue safety summary))
     \<and> get_report ''shift_20240115_002'' (snd (process_shift sample_env ?id initial_state)) = None"
    by auto
  from a b show ?thesis by blast
qed

section \<open>Order of the agents: proofs\<close>

lemma process_shift_trace:
  "\<exists>new. trace (snd (process_shift env sid st)) = trace st @ new \<and> summarizer_after_both new"
proof -
  obtain r st' where rs: "run_stages env sid st = (r, st')"
    by (cases "run_stages env sid st")
  from run_stages_trace [OF rs] obtain new where
    "trace st' = trace st @ new" "summarizer_after_both new" by blast
  moreover have "trace (snd (process_shift env sid st)) = trace st'"
    using rs by (simp add: process_shift_state log_error_def split: sum.splits option.splits)
  ultimately show ?thesis by auto
qed

lemma analyze_shift_flow_unbound_names:
  assumes "globals env ''fatigue_result'' = None \<or> globals env ''safety_result'' = None"
  shows "isl (fst (analyze_shift_flow env sid st)) \<and> snd (analyze_shift_flow env sid st) = st"
  using assms unfolding analyze_shift_flow_def
  by (auto split: sum.splits option.splits)

text \<open>In the flow of section 4.2 every entry into the Summarizer is given the values of
  the two global names, whatever the agents of the run return.\<close>

lemma save_to_database_trace: "trace (snd (save_to_database env sid r st)) = trace st"
  by (simp add: save_to_database_def split: option.splits)

lemma upload_report_to_s3_trace: "trace (snd (upload_report_to_s3 env sid r st)) = trace st"
  by (simp add: upload_report_to_s3_def split: option.splits)

lemma analyze_shift_flow_summarizer_inputs:
  assumes "trace (snd (analyze_shift_flow env sid st)) = trace st @ new"
    and "Invoked Summarizer args \<in> set new"
  shows "\<exists>fr sr. globals env ''fatigue_result'' = Some fr
           \<and> globals env ''safety_result'' = Some sr \<and> args = [fr, sr]"
  using assms unfolding analyze_shift_flow_def
  by (auto split: sum.splits prod.splits option.splits
      simp: save_to_database_def upload_report_to_s3_def
      dest!: FatigueAgent_trace SafetyAgent_trace SummarizerAgent_trace)


section \<open>The upload form: proofs\<close>

lemma set_error_nonempty: "set_error k msg errs \<noteq> []"
  by (cases errs) (simp_all add: set_error_def)



lemma apply_check_Nil: "apply_check e c = [] \<longleftrightarrow> e = [] \<and> \<not> fst c"
  by (cases c) (auto simp: apply_check_def set_error_nonempty)

lemma foldl_apply_check_Nil:
  "foldl apply_check e cs = [] \<longleftrightarrow> e = [] \<and> (\<forall>c \<in> set cs. \<not> fst c)"
  by (induction cs arbitrary: e) (auto simp: apply_check_Nil)





lemma form_errors_empty_file:
  assumes "form_errors b st = []"
  shows "audioFile st \<noteq> None"
  using assms unfolding form_errors_def foldl_apply_check_Nil
  by (auto simp: form_checks_def Let_def)


lemma validateForm_accepts: "snd (validateForm b st) \<longleftrightarrow> form_errors b st = []"
  by (simp add: validateForm_def Let_def)

lemma handleSubmit_rejected:
  "\<not> snd (validateForm b st) \<Longrightarrow> handleSubmit b st = st\<lparr>errors := form_errors b st\<rparr>"
  by (simp add: handleSubmit_def validateForm_def Let_def)



text \<open>
  Claim C10. A file whose type is not one of the five audio types, or whose measured
  duration exceeds 1800 seconds, is rejected: the selected file is cleared, an error is
  stored for \<^verbatim>\<open>audioFile\<close>, the form does not validate and submitting it queues nothing.
  A file that is selected afterwards is the one chosen, has one of the five types and a
  measured duration of at most 1800 seconds.
\<close>

theorem handleAudioChange_accepts_only_valid:
  "(file_type file \<notin> set validTypes
      \<or> js_greater (getAudioDuration b file) maxDurationSeconds
    \<longrightarrow> audioFile (handleAudioChange b (Some file) st) = None
      \<and> map_of (errors (handleAudioChange b (Some file) st)) ''audioFile'' \<noteq> None
      \<and> \<not> snd (validateForm b (handleAudioChange b (Some file) st))
      \<and> successMessage (handleSubmit b (handleAudioChange b (Some file) st)) = successMessage st)
   \<and> (audioFile (handleAudioChange b (Some file) st) = Some f
    \<longrightarrow> f = file \<and> file_type file \<in> set validTypes
      \<and> \<not> js_greater (getAudioDuration b file) maxDurationSeconds
      \<and> (\<forall>d. getAudioDuration b file = Finite d \<longrightarrow> d \<le> 1800))"
proof (intro conjI impI)
  let ?st = "handleAudioChange b (Some file) st"
  assume bad: "file_type file \<notin> set validTypes
      \<or> js_greater (getAudioDuration b file) maxDurationSeconds"
  then show none: "audioFile ?st = None"
    by (auto simp: handleAudioChange_def Let_def)
  from bad show "map_of (errors ?st) ''audioFile'' \<noteq> None"
    by (auto simp: handleAudioChange_def Let_def)
  from none have "form_errors b ?st \<noteq> []"
    using form_errors_empty_file [of b ?st] by auto
  then show rej: "\<not> snd (validateForm b ?st)" by (simp add: validateForm_accepts)
  have "successMessage ?st = successMessage st"
    by (auto simp: handleAudioChange_def Let_def)
  then show "successMessage (handleSubmit b ?st) = successMessage st"
    using rej by (simp add: handleSubmit_rejected)
next
  assume ok: "audioFile (handleAudioChange b (Some file) st) = Some f"
  then show "f = file" "file_type file \<in> set validTypes"
    and ng: "\<not> js_greater (getAudioDuration b file) maxDurationSeconds"
    by (auto simp: handleAudioChange_def Let_def split: if_splits)
  then show "\<forall>d. getAudioDuration b file = Finite d \<longrightarrow> d \<le> 1800"
    by (auto simp: js_greater_def maxDurationSeconds_def)
qed

theorem handleAudioChange_accepts_only_valid_witness:
  "audioFile (handleAudioChange sample_browser (Some long_file) sample_upload) = None
   \<and> successMessage (handleSubmit sample_browser
        (handleAudioChange sample_browser (Some long_file) sample_upload)) = []
   \<and> audioFile (handleAudioChange sample_browser (Some text_file) sample_upload) = None
   \<and> file_type good_file \<in> set validTypes \<and> (1500::rat) \<le> 1800"
proof -
  have h1: "js_greater (getAudioDuration sample_browser long_file) maxDurationSeconds"
    by code_simp
  have h2: "file_type text_file \<notin> set validTypes"
    by code_simp
  have h3: "audioFile (handleAudioChange sample_browser (Some good_file) sample_upload)
      = Some good_file"
    by code_simp
  have d: "getAudioDuration sample_browser good_file = Finite 1500"
    by code_simp
  have m: "successMessage sample_upload = []"
    by code_simp
  from handleAudioChange_accepts_only_valid [of long_file sample_browser sample_upload good_file] h1 m
  have a: "audioFile (handleAudioChange sample_browser (Some long_file) sample_upload) = None
     \<and> successMessage (handleSubmit sample_browser
        (handleAudioChange sample_browser (Some long_file) sample_upload)) = []"
    by simp
  from handleAudioChange_accepts_only_valid [of text_file sample_browser sample_upload good_file] h2
  have b: "audioFile (handleAudioChange sample_browser (Some text_file) sample_upload) = None"
    by simp
  from handleAudioChange_accepts_only_valid [of good_file sample_browser sample_upload good_file]
    h3 d
  have c: "file_type good_file \<in> set validTypes \<and> (1500::rat) \<le> 1800"
    by simp
  from a b c show ?thesis by blast
qed

end

